theory Spec2Isabelle
  imports Main
begin

section \<open>Data model\<close>

text \<open>
  The registration lifecycle of the event-ticketing backend: the ticket inventory of an
  event (\<open>models/Event.ts\<close>), registrations (\<open>models/Registration.ts\<close>), registration
  creation, cancellation, check-in and QR validation (\<open>RegistrationService\<close>), the
  payment webhook (\<open>PaymentService\<close>), the QR check-in (\<open>CheckInService\<close>) and the
  payment expiry job (\<open>expirePaymentsJob\<close>).

  Conventions of the embedding.
  \<^item> The MongoDB collections are lists of documents; \<open>findById\<close>/\<open>findOne\<close> return the
    first match, \<open>save\<close> replaces the stored document of the same \<open>_id\<close>.
  \<^item> Object ids are natural numbers drawn from a counter of the store.
  \<^item> JavaScript numbers that hold counts, prices and millisecond clocks are \<open>int\<close>.
  \<^item> Every \<open>throw\<close> is an \<open>Inl\<close> of the result; a function that can leave the store
    changed before it throws returns the store beside the result.
  \<^item> The clock, the random identifiers, the outcome of calls to outside services
    (payment provider, image and PDF rendering, blob storage) and the library functions
    the code calls (AES of CryptoJS, \<open>JSON.parse\<close>/\<open>JSON.stringify\<close>, SHA-512) are
    fields of the environment \<open>env\<close>: they are inputs, the code does not define them.
  \<^item> Mongoose validates a document before it runs the pre-save hooks of the schema and
    throws a \<open>ValidationError\<close>, writing nothing, when a validator fails. The validators
    of the paths that the records hold are modelled: \<open>required\<close> (which the empty string
    fails) and \<open>min\<close>. Documents in the store are taken to satisfy their schema, so
    that the save of a loaded document can fail only on a value that the code has just
    assigned; the only such values are the \<open>sold\<close> and \<open>reserved\<close> counts written by
    \<open>updateTicketAvailability\<close> and the total amount written by \<open>createPayment\<close>. A new
    document is validated as a whole. Unique indexes are not modelled.
  \<^item> E-mail, WhatsApp and in-app notifications and the cache are not modelled;
    participant details, the organizer, URLs, device information and the free-form
    \<open>metadata\<close> of a registration are left out of the records.
\<close>

type_synonym oid = nat

datatype payment_status = P_pending | P_paid | P_expired | P_failed | P_refunded

datatype ticket_status = T_valid | T_used | T_cancelled | T_expired

datatype reg_status = S_pending_payment | S_confirmed | S_cancelled | S_attended | S_no_show

datatype event_status = E_draft | E_pending_approval | E_approved | E_rejected
  | E_published | E_ongoing | E_completed | E_cancelled

datatype error =
    EventTidakDitemukan
  | EventBelumDipublikasikan
  | PendaftaranBelumDibuka
  | PendaftaranSudahDitutup
  | TipeTiketTidakDitemukan
  | TipeTiketTidakAktif
  | TiketSudahHabis
  | AndaSudahTerdaftar
  | UserTidakDitemukan
  | ValidationError
  | GagalMembuatTiket
  | GagalMembuatTransaksiPembayaran
  | SignatureNotifikasiTidakValid
  | RegistrasiTidakDitemukan
  | AksesTidakDiizinkan
  | RegistrasiSudahDibatalkan
  | AttendedTidakDapatDibatalkan
  | RegistrasiBelumDikonfirmasi
  | TiketSudahDigunakan
  | TiketSudahDibatalkan
  | RegistrasiBelumCheckIn
  | HanyaPembayaranBerhasilDapatDiRefund

record ticketType =
  tt_id :: oid
  price :: int
  quota :: int
  sold :: int
  reserved :: int
  available :: int
  isActive :: bool

record event =
  ev_id :: oid
  ev_status :: event_status
  registrationOpen :: int
  registrationClose :: int
  ticketTypes :: "ticketType list"
  totalQuota :: int
  totalSold :: int
  totalRevenue :: int

text \<open>
  A registration. An absent string (\<open>registrationNumber\<close>, \<open>ticket.ticketNumber\<close>) and the
  empty string are both \<open>[]\<close>: the code tests them with \<open>!\<close>, and \<open>required\<close> rejects
  both.
\<close>

record registration =
  reg_id :: oid
  registrationNumber :: string
  userId :: oid
  eventId :: oid
  ticketTypeId :: oid
  ticketPrice :: int
  quantity :: int
  pay_method :: string
  pay_status :: payment_status
  pay_amount :: int
  pay_totalAmount :: int
  pay_orderId :: string
  pay_transactionId :: "string option"
  pay_paidAt :: "int option"
  pay_expiredAt :: int
  ticketNumber :: string
  qrCode :: string
  tk_status :: ticket_status
  checkIn :: "(int \<times> oid) option"
  status :: reg_status
  refundStatus :: "string option"

text \<open>The payload of a QR code (\<open>QRCodeData\<close> in \<open>utils/qrcode.ts\<close>).\<close>

record qrdata =
  qr_ticketNumber :: string
  qr_registrationId :: oid
  qr_eventId :: oid
  qr_userId :: oid
  qr_timestamp :: int

text \<open>
  The store: the two collections, the user ids, the id counter, and two logs of
  effects that leave the process: the payment intents created at the provider
  (\<open>snap.createTransaction\<close>) and the ticket jobs started (\<open>generateAndSendTicket\<close>,
  which is not awaited: after the handler has returned it renders the ticket of a
  registration, stores the addresses of the rendered QR image and PDF on the
  registration, and sends the ticket). What such a job writes is not part of the
  result of the handler that started it.
\<close>

record db =
  events :: "event list"
  registrations :: "registration list"
  users :: "oid list"
  nextId :: oid
  intents :: "string list"
  ticketJobs :: "oid list"

record env =
  now :: int
  nowText :: string
  year :: string
  nanoid :: string
  nanoid10 :: string
  token :: string
  expiryHours :: int
  snapOk :: bool
  snapToken :: string
  artifactsOk :: bool
  serverKey :: string
  sha512hex :: "string \<Rightarrow> string"
  aesEncrypt :: "string \<Rightarrow> string"
  aesDecrypt :: "string \<Rightarrow> string option"
  jsonStringify :: "qrdata \<Rightarrow> string"
  jsonParse :: "string \<Rightarrow> qrdata option"

section \<open>The store\<close>

text \<open>
  \<open>Array.prototype.find\<close> hands out the first matching element and the code assigns to
  its fields; \<open>save\<close> writes the document back under its \<open>_id\<close>.
\<close>

fun updateFirst :: "('a \<Rightarrow> bool) \<Rightarrow> ('a \<Rightarrow> 'a) \<Rightarrow> 'a list \<Rightarrow> 'a list" where
  "updateFirst P f [] = []"
| "updateFirst P f (x # xs) = (if P x then f x # xs else x # updateFirst P f xs)"

definition findEvent :: "db \<Rightarrow> oid \<Rightarrow> event option" where
  "findEvent d i = find (\<lambda>e. ev_id e = i) (events d)"

definition findTicketType :: "event \<Rightarrow> oid \<Rightarrow> ticketType option" where
  "findTicketType ev i = find (\<lambda>t. tt_id t = i) (ticketTypes ev)"

definition findRegistration :: "db \<Rightarrow> oid \<Rightarrow> registration option" where
  "findRegistration d i = find (\<lambda>r. reg_id r = i) (registrations d)"

definition findByOrderId :: "db \<Rightarrow> string \<Rightarrow> registration option" where
  "findByOrderId d oid = find (\<lambda>r. pay_orderId r = oid) (registrations d)"

text \<open>
  A validator \<open>min\<close> on a path of a loaded document: the stored value satisfies the
  schema, so the validator fails only for a value below the bound that the code has
  assigned in place of the stored one.
\<close>

definition rejectsMin :: "int \<Rightarrow> int \<Rightarrow> int \<Rightarrow> bool" where
  "rejectsMin bound stored assigned = (assigned \<noteq> stored \<and> assigned < bound)"

text \<open>
  The pre-save hook of the event schema: when the ticket types were modified, the
  total quota and every tier's \<open>available\<close> are recomputed.
\<close>

definition recomputeAvailable :: "ticketType \<Rightarrow> ticketType" where
  "recomputeAvailable t = t\<lparr>available := quota t - sold t - reserved t\<rparr>"

definition eventPreSave :: "bool \<Rightarrow> event \<Rightarrow> event" where
  "eventPreSave modified ev =
     (if modified
      then ev\<lparr>ticketTypes := map recomputeAvailable (ticketTypes ev),
              totalQuota := sum_list (map quota (ticketTypes ev))\<rparr>
      else ev)"

definition saveEvent :: "db \<Rightarrow> event \<Rightarrow> db" where
  "saveEvent d ev =
     (let modified = (case findEvent d (ev_id ev) of
                        None \<Rightarrow> True
                      | Some old \<Rightarrow> ticketTypes old \<noteq> ticketTypes ev);
          ev' = eventPreSave modified ev
      in d\<lparr>events := updateFirst (\<lambda>e. ev_id e = ev_id ev) (\<lambda>_. ev') (events d)\<rparr>)"

text \<open>
  The two pre-save hooks of the registration schema. The first gives a new document
  without a registration number one. The second generates a ticket number when
  \<open>payment.status\<close> was modified, is \<open>paid\<close>, and no ticket number is set; the status
  becomes \<open>confirmed\<close>.
\<close>

definition registrationNumberHook :: "env \<Rightarrow> bool \<Rightarrow> registration \<Rightarrow> registration" where
  "registrationNumberHook x isNew r =
     (if isNew \<and> registrationNumber r = []
      then r\<lparr>registrationNumber := ''NV-'' @ year x @ ''-'' @ nanoid10 x\<rparr>
      else r)"

definition ticketNumberHook :: "env \<Rightarrow> bool \<Rightarrow> registration \<Rightarrow> registration" where
  "ticketNumberHook x modified r =
     (if modified \<and> pay_status r = P_paid \<and> ticketNumber r = []
      then r\<lparr>ticketNumber := ''NV-TIX-'' @ year x @ ''-'' @ nanoid x, status := S_confirmed\<rparr>
      else r)"

text \<open>
  \<open>save\<close> of a registration that was loaded from the store: it is not new, so only the
  second hook can act.
\<close>

definition saveRegistration :: "env \<Rightarrow> db \<Rightarrow> registration \<Rightarrow> db \<times> registration" where
  "saveRegistration x d r =
     (let modified = (case findRegistration d (reg_id r) of
                        None \<Rightarrow> True
                      | Some old \<Rightarrow> pay_status old \<noteq> pay_status r);
          r' = ticketNumberHook x modified r
      in (d\<lparr>registrations := updateFirst (\<lambda>q. reg_id q = reg_id r) (\<lambda>_. r') (registrations d)\<rparr>, r'))"

text \<open>
  The validators of the registration schema on the paths of the record:
  \<open>registrationNumber\<close>, \<open>payment.method\<close> and \<open>payment.orderId\<close> are \<open>required\<close>
  strings, \<open>ticketType.price\<close>, \<open>payment.amount\<close> and \<open>payment.totalAmount\<close> have
  \<open>min: 0\<close>, \<open>quantity\<close> has \<open>min: 1\<close>.
\<close>

definition validRegistration :: "registration \<Rightarrow> bool" where
  "validRegistration r =
     (registrationNumber r \<noteq> [] \<and> 0 \<le> ticketPrice r \<and> 1 \<le> quantity r
      \<and> pay_method r \<noteq> [] \<and> 0 \<le> pay_amount r \<and> 0 \<le> pay_totalAmount r
      \<and> pay_orderId r \<noteq> [])"

text \<open>
  \<open>Registration.create\<close>: the new document is validated; only a valid document reaches
  the pre-save hooks (every path set counts as modified) and is inserted.
\<close>

definition createDocument :: "env \<Rightarrow> db \<Rightarrow> registration \<Rightarrow> error + db \<times> registration" where
  "createDocument x d r =
     (if \<not> validRegistration r then Inl ValidationError
      else
        let r' = ticketNumberHook x True (registrationNumberHook x True (r\<lparr>reg_id := nextId d\<rparr>))
        in Inr (d\<lparr>registrations := registrations d @ [r'], nextId := Suc (nextId d)\<rparr>, r'))"

section \<open>Ticket inventory\<close>

text \<open>
  \<open>EventService.updateTicketAvailability\<close>: the three assignments to the tier
  (\<open>setCounts\<close>), the totals of the event, and the save. The schema gives \<open>sold\<close> and
  \<open>reserved\<close> the validator \<open>min: 0\<close>: with a negative count \<open>event.save()\<close> throws and
  nothing is written.
\<close>

definition setCounts :: "int \<Rightarrow> int \<Rightarrow> ticketType \<Rightarrow> ticketType" where
  "setCounts soldCount reservedCount t =
     t\<lparr>sold := soldCount, reserved := reservedCount,
       available := quota t - soldCount - reservedCount\<rparr>"

definition updateTicketAvailability :: "db \<Rightarrow> oid \<Rightarrow> oid \<Rightarrow> int \<Rightarrow> int \<Rightarrow> error + db" where
  "updateTicketAvailability d eventId' ticketTypeId' soldCount reservedCount =
     (case findEvent d eventId' of
        None \<Rightarrow> Inl EventTidakDitemukan
      | Some ev \<Rightarrow>
          (case findTicketType ev ticketTypeId' of
             None \<Rightarrow> Inl TipeTiketTidakDitemukan
           | Some tt \<Rightarrow>
               if rejectsMin 0 (sold tt) soldCount \<or> rejectsMin 0 (reserved tt) reservedCount
               then Inl ValidationError
               else
                 let tts = updateFirst (\<lambda>t. tt_id t = ticketTypeId')
                             (setCounts soldCount reservedCount) (ticketTypes ev);
                     ev' = ev\<lparr>ticketTypes := tts,
                              totalSold := sum_list (map sold tts),
                              totalRevenue := sum_list (map (\<lambda>t. sold t * price t) tts)\<rparr>
                 in Inr (saveEvent d ev')))"

text \<open>
  Every caller that adjusts a tier looks the event up by \<open>registration.eventId\<close> and the
  tier by \<open>registration.ticketType.id\<close>, does nothing when either is missing, and
  otherwise calls \<open>updateTicketAvailability\<close> with counts computed from the tier it has
  just read. \<open>adjustTier\<close> is that shared shape; the two functions are the new counts.
\<close>

definition adjustTier ::
  "db \<Rightarrow> registration \<Rightarrow> (ticketType \<Rightarrow> int) \<Rightarrow> (ticketType \<Rightarrow> int) \<Rightarrow> error + db" where
  "adjustTier d r newSold newReserved =
     (case findEvent d (eventId r) of
        None \<Rightarrow> Inr d
      | Some ev \<Rightarrow>
          (case findTicketType ev (ticketTypeId r) of
             None \<Rightarrow> Inr d
           | Some tt \<Rightarrow> updateTicketAvailability d (ev_id ev) (tt_id tt) (newSold tt) (newReserved tt)))"

section \<open>Registration creation\<close>

record createData =
  d_userId :: oid
  d_eventId :: oid
  d_ticketTypeId :: oid
  d_quantity :: "int option"

text \<open>
  \<open>RegistrationService.generateTicket\<close>. The QR image, the two uploads and the PDF are
  outside services: when one of them fails the function throws (\<open>artifactsOk\<close> is
  false). A failing confirmation e-mail is caught by the code and changes nothing here.
\<close>

definition generateTicket :: "env \<Rightarrow> db \<Rightarrow> registration \<Rightarrow> db \<times> (error + registration)" where
  "generateTicket x d r =
     (case findEvent d (eventId r) of
        None \<Rightarrow> (d, Inl EventTidakDitemukan)
      | Some ev \<Rightarrow>
          let qr = \<lparr>qr_ticketNumber =
                      (if ticketNumber r \<noteq> [] then ticketNumber r else ''NV-TIX-'' @ nowText x),
                    qr_registrationId = reg_id r,
                    qr_eventId = ev_id ev,
                    qr_userId = userId r,
                    qr_timestamp = now x\<rparr>
          in if \<not> artifactsOk x then (d, Inl GagalMembuatTiket)
             else let (d', r') = saveRegistration x d
                                   (r\<lparr>ticketNumber := qr_ticketNumber qr,
                                       qrCode := jsonStringify x qr\<rparr>)
                  in (d', Inr r'))"

text \<open>
  \<open>PaymentService.createPayment\<close>. Every failure inside is caught and rethrown as
  "Gagal membuat transaksi pembayaran": a missing or processed registration, a missing
  event (the transaction parameters read the id of the populated event), a failure of
  the provider, and a total amount that the validator \<open>min: 0\<close> rejects at the save,
  which comes after the intent was created at the provider. The result is the snap
  token and the order id.
\<close>

definition createPayment :: "env \<Rightarrow> db \<Rightarrow> oid \<Rightarrow> int \<Rightarrow> db \<times> (error + string \<times> string)" where
  "createPayment x d registrationId amount =
     (case findRegistration d registrationId of
        None \<Rightarrow> (d, Inl GagalMembuatTransaksiPembayaran)
      | Some r \<Rightarrow>
          if pay_status r \<noteq> P_pending then (d, Inl GagalMembuatTransaksiPembayaran)
          else
            let orderId = ''NV-ORDER-'' @ nowText x @ ''-'' @ token x;
                adminFee = 0;
                totalAmount = amount + adminFee
            in if findEvent d (eventId r) = None then (d, Inl GagalMembuatTransaksiPembayaran)
               else if \<not> snapOk x then (d, Inl GagalMembuatTransaksiPembayaran)
               else
                 let d1 = d\<lparr>intents := intents d @ [orderId]\<rparr>
                 in if rejectsMin 0 (pay_totalAmount r) totalAmount
                    then (d1, Inl GagalMembuatTransaksiPembayaran)
                    else
                      let (d2, _) = saveRegistration x d1
                                      (r\<lparr>pay_orderId := orderId, pay_method := ''midtrans'',
                                          pay_totalAmount := totalAmount\<rparr>)
                      in (d2, Inr (snapToken x, orderId)))"

text \<open>
  \<open>RegistrationService.createRegistration\<close>, in the two parts that the awaits of the
  source separate: \<open>admitRegistration\<close> is everything up to the last check (it reads the
  event, the existing registrations and the user, and writes nothing);
  \<open>reserveAndPay\<close> is the rest, working on the event and the tier that were read.
\<close>

definition admitRegistration :: "env \<Rightarrow> db \<Rightarrow> createData \<Rightarrow> error + event \<times> ticketType" where
  "admitRegistration x d data =
     (case findEvent d (d_eventId data) of
        None \<Rightarrow> Inl EventTidakDitemukan
      | Some ev \<Rightarrow>
          if ev_status ev \<noteq> E_published then Inl EventBelumDipublikasikan
          else if now x < registrationOpen ev then Inl PendaftaranBelumDibuka
          else if now x > registrationClose ev then Inl PendaftaranSudahDitutup
          else
            (case findTicketType ev (d_ticketTypeId data) of
               None \<Rightarrow> Inl TipeTiketTidakDitemukan
             | Some tt \<Rightarrow>
                 if \<not> isActive tt then Inl TipeTiketTidakAktif
                 else if available tt \<le> 0 then Inl TiketSudahHabis
                 else if find (\<lambda>r. userId r = d_userId data \<and> eventId r = d_eventId data
                                     \<and> status r \<noteq> S_cancelled) (registrations d) \<noteq> None
                   then Inl AndaSudahTerdaftar
                 else if d_userId data \<notin> set (users d) then Inl UserTidakDitemukan
                 else Inr (ev, tt)))"

text \<open>\<open>data.quantity || 1\<close>: a missing quantity and the quantity 0 both give 1.\<close>

definition requestedQuantity :: "createData \<Rightarrow> int" where
  "requestedQuantity data = (case d_quantity data of None \<Rightarrow> 1 | Some q \<Rightarrow> if q = 0 then 1 else q)"

text \<open>
  The document that \<open>createRegistration\<close> passes to \<open>Registration.create\<close>. It names no
  registration number, and its order id is the empty string ("Will be set when creating
  payment").
\<close>

definition newRegistration :: "env \<Rightarrow> createData \<Rightarrow> ticketType \<Rightarrow> registration" where
  "newRegistration x data tt =
     (let quantity' = requestedQuantity data;
          amount = price tt * quantity';
          adminFee = 0;
          totalAmount = amount + adminFee
      in \<lparr>reg_id = 0,
          registrationNumber = [],
          userId = d_userId data,
          eventId = d_eventId data,
          ticketTypeId = tt_id tt,
          ticketPrice = price tt,
          quantity = quantity',
          pay_method = (if amount = 0 then ''free'' else ''midtrans''),
          pay_status = (if amount = 0 then P_paid else P_pending),
          pay_amount = amount,
          pay_totalAmount = totalAmount,
          pay_orderId = [],
          pay_transactionId = None,
          pay_paidAt = (if amount = 0 then Some (now x) else None),
          pay_expiredAt = now x + expiryHours x * 60 * 60 * 1000,
          ticketNumber = [],
          qrCode = [],
          tk_status = T_valid,
          checkIn = None,
          status = (if amount = 0 then S_confirmed else S_pending_payment),
          refundStatus = None\<rparr>)"

definition reserveAndPay ::
  "env \<Rightarrow> db \<Rightarrow> createData \<Rightarrow> event \<Rightarrow> ticketType
     \<Rightarrow> db \<times> (error + registration \<times> (string \<times> string) option)" where
  "reserveAndPay x d data ev tt =
     (let quantity' = requestedQuantity data;
          amount = price tt * quantity';
          adminFee = 0;
          totalAmount = amount + adminFee
      in case createDocument x d (newRegistration x data tt) of
           Inl e \<Rightarrow> (d, Inl e)
         | Inr (d1, reg) \<Rightarrow>
             (case updateTicketAvailability d1 (ev_id ev) (tt_id tt) (sold tt)
                     (reserved tt + quantity') of
                Inl e \<Rightarrow> (d1, Inl e)
              | Inr d2 \<Rightarrow>
                  (case (if amount = 0 then generateTicket x d2 reg else (d2, Inr reg)) of
                     (d3, Inl e) \<Rightarrow> (d3, Inl e)
                   | (d3, Inr reg') \<Rightarrow>
                       if amount > 0
                       then (case createPayment x d3 (reg_id reg') totalAmount of
                               (d4, Inl e) \<Rightarrow> (d4, Inl e)
                             | (d4, Inr p) \<Rightarrow> (d4, Inr (reg', Some p)))
                       else (d3, Inr (reg', None)))))"

definition createRegistration ::
  "env \<Rightarrow> db \<Rightarrow> createData \<Rightarrow> db \<times> (error + registration \<times> (string \<times> string) option)" where
  "createRegistration x d data =
     (case admitRegistration x d data of
        Inl e \<Rightarrow> (d, Inl e)
      | Inr (ev, tt) \<Rightarrow> reserveAndPay x d data ev tt)"

section \<open>Payment webhook\<close>

record notification =
  order_id :: string
  status_code :: string
  gross_amount :: string
  signature_key :: string
  transaction_status :: string
  transaction_id :: string
  fraud_status :: "string option"

definition verifyNotification :: "env \<Rightarrow> notification \<Rightarrow> bool" where
  "verifyNotification x n =
     (sha512hex x (order_id n @ status_code n @ gross_amount n @ serverKey x) = signature_key n)"

text \<open>
  \<open>PaymentService.handleSuccessfulPayment\<close>. The call of \<open>generateAndSendTicket\<close> at the
  end is not awaited and its failures are only logged: it is recorded in \<open>ticketJobs\<close>.
\<close>

definition handleSuccessfulPayment ::
  "env \<Rightarrow> db \<Rightarrow> registration \<Rightarrow> string \<Rightarrow> db \<times> (error + unit)" where
  "handleSuccessfulPayment x d r transactionId =
     (let (d1, r1) = saveRegistration x d
                       (r\<lparr>pay_status := P_paid, pay_paidAt := Some (now x),
                           pay_transactionId := Some transactionId, status := S_confirmed\<rparr>)
      in case adjustTier d1 r1 (\<lambda>t. sold t + 1) (\<lambda>t. max 0 (reserved t - 1)) of
           Inl e \<Rightarrow> (d1, Inl e)
         | Inr d2 \<Rightarrow> (d2\<lparr>ticketJobs := ticketJobs d2 @ [reg_id r1]\<rparr>, Inr ()))"

definition handleFailedPayment ::
  "env \<Rightarrow> db \<Rightarrow> registration \<Rightarrow> string \<Rightarrow> db \<times> (error + unit)" where
  "handleFailedPayment x d r reason =
     (let (d1, r1) = saveRegistration x d
                       (r\<lparr>pay_status := (if reason = ''expire'' then P_expired else P_failed),
                           status := S_cancelled\<rparr>)
      in case adjustTier d1 r1 sold (\<lambda>t. max 0 (reserved t - 1)) of
           Inl e \<Rightarrow> (d1, Inl e)
         | Inr d2 \<Rightarrow> (d2, Inr ()))"

definition handleRefund :: "env \<Rightarrow> db \<Rightarrow> registration \<Rightarrow> db \<times> (error + unit)" where
  "handleRefund x d r =
     (let (d1, r1) = saveRegistration x d
                       (r\<lparr>pay_status := P_refunded, status := S_cancelled,
                           tk_status := T_cancelled\<rparr>)
      in case adjustTier d1 r1 (\<lambda>t. max 0 (sold t - 1)) reserved of
           Inl e \<Rightarrow> (d1, Inl e)
         | Inr d2 \<Rightarrow> (d2, Inr ()))"

text \<open>
  \<open>PaymentService.handlePaymentNotification\<close>. \<open>!fraud_status\<close> holds for a missing
  field and for the empty string.
\<close>

definition handlePaymentNotification :: "env \<Rightarrow> db \<Rightarrow> notification \<Rightarrow> db \<times> (error + unit)" where
  "handlePaymentNotification x d n =
     (if \<not> verifyNotification x n then (d, Inl SignatureNotifikasiTidakValid)
      else
        (case findByOrderId d (order_id n) of
           None \<Rightarrow> (d, Inr ())
         | Some r \<Rightarrow>
             let ts = transaction_status n in
             if ts = ''capture'' \<or> ts = ''settlement'' then
               (if fraud_status n = Some ''accept'' \<or> fraud_status n = None
                   \<or> fraud_status n = Some []
                then handleSuccessfulPayment x d r (transaction_id n)
                else if fraud_status n = Some ''challenge''
                then (fst (saveRegistration x d (r\<lparr>pay_status := P_pending\<rparr>)), Inr ())
                else (d, Inr ()))
             else if ts = ''pending'' then
               (fst (saveRegistration x d (r\<lparr>pay_status := P_pending\<rparr>)), Inr ())
             else if ts = ''deny'' \<or> ts = ''cancel'' \<or> ts = ''expire'' then
               handleFailedPayment x d r ts
             else if ts = ''refund'' \<or> ts = ''partial_refund'' then
               handleRefund x d r
             else (d, Inr ())))"

section \<open>Expiry job\<close>

text \<open>
  The body of the loop of \<open>expirePaymentsJob\<close>: a failure while releasing the tier is
  caught and logged, the registration stays as saved.
\<close>

definition expireRegistration :: "env \<Rightarrow> registration \<Rightarrow> db \<Rightarrow> db" where
  "expireRegistration x r d =
     (let (d1, r1) = saveRegistration x d
                       (r\<lparr>pay_status := P_expired, status := S_cancelled,
                           tk_status := T_expired\<rparr>)
      in case adjustTier d1 r1 sold (\<lambda>t. max 0 (reserved t - quantity r1)) of
           Inl e \<Rightarrow> d1
         | Inr d2 \<Rightarrow> d2)"

definition expirePaymentsJob :: "env \<Rightarrow> db \<Rightarrow> db" where
  "expirePaymentsJob x d =
     fold (expireRegistration x)
       (filter (\<lambda>r. pay_status r = P_pending \<and> pay_expiredAt r \<le> now x) (registrations d)) d"

section \<open>Cancellation\<close>

definition requestRefund :: "env \<Rightarrow> db \<Rightarrow> oid \<Rightarrow> db \<times> (error + unit)" where
  "requestRefund x d registrationId =
     (case findRegistration d registrationId of
        None \<Rightarrow> (d, Inl RegistrasiTidakDitemukan)
      | Some r \<Rightarrow>
          if pay_status r \<noteq> P_paid then (d, Inl HanyaPembayaranBerhasilDapatDiRefund)
          else (fst (saveRegistration x d (r\<lparr>refundStatus := Some ''pending''\<rparr>)), Inr ()))"

definition cancelRegistration :: "env \<Rightarrow> db \<Rightarrow> oid \<Rightarrow> oid \<Rightarrow> db \<times> (error + registration)" where
  "cancelRegistration x d registrationId uid =
     (case findRegistration d registrationId of
        None \<Rightarrow> (d, Inl RegistrasiTidakDitemukan)
      | Some r \<Rightarrow>
          if userId r \<noteq> uid then (d, Inl AksesTidakDiizinkan)
          else if status r = S_cancelled then (d, Inl RegistrasiSudahDibatalkan)
          else if status r = S_attended then (d, Inl AttendedTidakDapatDibatalkan)
          else
            let (d1, r1) = saveRegistration x d
                   (r\<lparr>status := S_cancelled, tk_status := T_cancelled,
                       refundStatus := Some (if pay_status r = P_paid then ''pending''
                                             else ''not_applicable'')\<rparr>)
            in case adjustTier d1 r1
                      (\<lambda>t. if pay_status r1 = P_paid then max 0 (sold t - 1) else sold t)
                      (\<lambda>t. if pay_status r1 = P_pending then max 0 (reserved t - 1)
                            else reserved t) of
                 Inl e \<Rightarrow> (d1, Inl e)
               | Inr d2 \<Rightarrow>
                   if pay_status r1 = P_paid
                   then (case requestRefund x d2 registrationId of
                           (d3, Inl e) \<Rightarrow> (d3, Inl e)
                         | (d3, Inr _) \<Rightarrow> (d3, Inr r1))
                   else (d2, Inr r1))"

section \<open>Check-in\<close>

datatype message =
    QRCodeSudahKedaluwarsa
  | RegistrasiTidakDitemukanMsg
  | NomorTiketTidakValid
  | TiketSudahDigunakanPada int
  | TiketSudahDibatalkanMsg
  | RegistrasiBelumDikonfirmasiMsg
  | QRCodeValid
  | QRCodeTidakValid
  | CheckInBerhasil
  | ErrorMessage error

record validation =
  valid :: bool
  v_registration :: "registration option"
  v_message :: message

text \<open>\<open>RegistrationService.checkInRegistration\<close>.\<close>

definition checkInRegistration :: "env \<Rightarrow> db \<Rightarrow> oid \<Rightarrow> oid \<Rightarrow> db \<times> (error + registration)" where
  "checkInRegistration x d registrationId checkedBy =
     (case findRegistration d registrationId of
        None \<Rightarrow> (d, Inl RegistrasiTidakDitemukan)
      | Some r \<Rightarrow>
          if status r \<noteq> S_confirmed then (d, Inl RegistrasiBelumDikonfirmasi)
          else if tk_status r = T_used then (d, Inl TiketSudahDigunakan)
          else if tk_status r = T_cancelled then (d, Inl TiketSudahDibatalkan)
          else
            let (d1, r1) = saveRegistration x d
                   (r\<lparr>status := S_attended, tk_status := T_used,
                       checkIn := Some (now x, checkedBy)\<rparr>)
            in (d1, Inr r1))"

text \<open>
  \<open>RegistrationService.validateQRCode\<close>, on a payload whose fields are present. The
  message for a used ticket carries the time of the check-in.
\<close>

definition validateQRCode :: "env \<Rightarrow> db \<Rightarrow> qrdata \<Rightarrow> validation" where
  "validateQRCode x d qr =
     (let qrAge = now x - qr_timestamp qr;
          maxAge = 30 * 24 * 60 * 60 * 1000
      in if qrAge > maxAge
         then \<lparr>valid = False, v_registration = None, v_message = QRCodeSudahKedaluwarsa\<rparr>
         else
           (case findRegistration d (qr_registrationId qr) of
              None \<Rightarrow> \<lparr>valid = False, v_registration = None,
                        v_message = RegistrasiTidakDitemukanMsg\<rparr>
            | Some r \<Rightarrow>
                if ticketNumber r \<noteq> qr_ticketNumber qr
                then \<lparr>valid = False, v_registration = None, v_message = NomorTiketTidakValid\<rparr>
                else if tk_status r = T_used
                then \<lparr>valid = False, v_registration = Some r,
                      v_message = TiketSudahDigunakanPada
                        (case checkIn r of Some (t, _) \<Rightarrow> t | None \<Rightarrow> now x)\<rparr>
                else if tk_status r = T_cancelled
                then \<lparr>valid = False, v_registration = Some r,
                      v_message = TiketSudahDibatalkanMsg\<rparr>
                else if status r \<noteq> S_confirmed
                then \<lparr>valid = False, v_registration = Some r,
                      v_message = RegistrasiBelumDikonfirmasiMsg\<rparr>
                else \<lparr>valid = True, v_registration = Some r, v_message = QRCodeValid\<rparr>))"

text \<open>
  \<open>encryptQRCode\<close> and \<open>decryptQRCode\<close> of \<open>utils/crypto.ts\<close>: \<open>decryptQRCode\<close> throws
  when the AES decryption or the JSON parser throws.
\<close>

definition encryptQRCode :: "env \<Rightarrow> qrdata \<Rightarrow> string" where
  "encryptQRCode x qr = aesEncrypt x (jsonStringify x qr)"

definition decryptQRCode :: "env \<Rightarrow> string \<Rightarrow> qrdata option" where
  "decryptQRCode x s = (case aesDecrypt x s of None \<Rightarrow> None | Some p \<Rightarrow> jsonParse x p)"

text \<open>
  \<open>CheckInService.processCheckIn\<close>: the result is \<open>success\<close>, the registration and the
  message. An error of \<open>checkInRegistration\<close> is caught and becomes the message.
\<close>

definition processCheckIn ::
  "env \<Rightarrow> db \<Rightarrow> string \<Rightarrow> oid \<Rightarrow> db \<times> (bool \<times> registration option \<times> message)" where
  "processCheckIn x d qrCodeData checkedBy =
     (case (case decryptQRCode x qrCodeData of
              Some q \<Rightarrow> Some q
            | None \<Rightarrow> jsonParse x qrCodeData) of
        None \<Rightarrow> (d, (False, None, QRCodeTidakValid))
      | Some qr \<Rightarrow>
          let v = validateQRCode x d qr in
          if \<not> valid v then (d, (False, v_registration v, v_message v))
          else
            (case checkInRegistration x d (qr_registrationId qr) checkedBy of
               (d1, Inl e) \<Rightarrow> (d1, (False, None, ErrorMessage e))
             | (d1, Inr r) \<Rightarrow> (d1, (True, Some r, CheckInBerhasil))))"

text \<open>
  \<open>CheckInService.undoCheckIn\<close>: the status and the ticket status are reverted and the
  check-in data is cleared. The note that the code writes into \<open>metadata\<close> is an
  assignment inside a \<open>Mixed\<close> value that is never marked as modified, so the save does
  not store it: of the original check-in nothing is kept in the store.
\<close>

definition undoCheckIn :: "env \<Rightarrow> db \<Rightarrow> oid \<Rightarrow> db \<times> (error + registration)" where
  "undoCheckIn x d registrationId =
     (case findRegistration d registrationId of
        None \<Rightarrow> (d, Inl RegistrasiTidakDitemukan)
      | Some r \<Rightarrow>
          if status r \<noteq> S_attended then (d, Inl RegistrasiBelumCheckIn)
          else
            let (d1, r1) = saveRegistration x d
                   (r\<lparr>status := S_confirmed, tk_status := T_valid, checkIn := None\<rparr>)
            in (d1, Inr r1))"

text \<open>
  The credential of a ticket is what the QR image of \<open>generateAndSendTicket\<close> (paid
  registrations) and of \<open>generateTicket\<close> (free ones) encodes: the encrypted payload
  built from the registration at the time of issue.
\<close>

definition issueCredential :: "env \<Rightarrow> registration \<Rightarrow> string" where
  "issueCredential x r =
     encryptQRCode x
       \<lparr>qr_ticketNumber = ticketNumber r, qr_registrationId = reg_id r,
        qr_eventId = eventId r, qr_userId = userId r, qr_timestamp = now x\<rparr>"

section \<open>Observations and sample data\<close>

text \<open>The tier that the code reaches from an event id and a tier id.\<close>

definition tierOf :: "db \<Rightarrow> oid \<Rightarrow> oid \<Rightarrow> ticketType option" where
  "tierOf d e t = (case findEvent d e of None \<Rightarrow> None | Some ev \<Rightarrow> findTicketType ev t)"

text \<open>
  A sample environment. Its hash, cipher and JSON codec are small stand-ins with the
  shape of the library functions, used only to run the model on concrete inputs: the
  cipher prefixes the text, the codec knows one payload.
\<close>

definition sampleQr :: qrdata where
  "sampleQr = \<lparr>qr_ticketNumber = ''NV-TIX-2025-ABCDEFGHIJKL'', qr_registrationId = 100,
               qr_eventId = 1, qr_userId = 7, qr_timestamp = 1000\<rparr>"

definition sampleJson :: string where
  "sampleJson = ''{\"ticketNumber\":\"NV-TIX-2025-ABCDEFGHIJKL\",\"registrationId\":100}''"

definition sampleEnv :: env where
  "sampleEnv = \<lparr>now = 1000, nowText = ''1000'', year = ''2025'', nanoid = ''ABCDEFGHIJKL'',
     nanoid10 = ''ABCDEFGHIJ'',
     token = ''0011223344556677'', expiryHours = 24, snapOk = True, snapToken = ''snap-1'',
     artifactsOk = True, serverKey = ''key'',
     sha512hex = (\<lambda>s. ''sha512:'' @ s),
     aesEncrypt = (\<lambda>s. ''U2F'' @ s),
     aesDecrypt = (\<lambda>s. if take 3 s = ''U2F'' then Some (drop 3 s) else None),
     jsonStringify = (\<lambda>q. if q = sampleQr then sampleJson else []),
     jsonParse = (\<lambda>s. if s = sampleJson then Some sampleQr else None)\<rparr>"

definition envB :: env where
  "envB = sampleEnv\<lparr>now := 1001, nowText := ''1001'', nanoid := ''MNOPQRSTUVWX'',
                    token := ''8899aabbccddeeff''\<rparr>"

definition paidTier :: ticketType where
  "paidTier = \<lparr>tt_id = 1, price = 50000, quota = 1, sold = 0, reserved = 0, available = 1,
                isActive = True\<rparr>"

definition freeTier :: ticketType where
  "freeTier = \<lparr>tt_id = 2, price = 0, quota = 10, sold = 0, reserved = 0, available = 10,
                isActive = True\<rparr>"

definition sampleEvent :: event where
  "sampleEvent = \<lparr>ev_id = 1, ev_status = E_published, registrationOpen = 0,
     registrationClose = 100000000000, ticketTypes = [paidTier, freeTier],
     totalQuota = 11, totalSold = 0, totalRevenue = 0\<rparr>"

definition sampleDb :: db where
  "sampleDb = \<lparr>events = [sampleEvent], registrations = [], users = [7, 8], nextId = 100,
                intents = [], ticketJobs = []\<rparr>"

definition reqPaid :: createData where
  "reqPaid = \<lparr>d_userId = 7, d_eventId = 1, d_ticketTypeId = 1, d_quantity = Some 1\<rparr>"

definition reqPaid8 :: createData where
  "reqPaid8 = \<lparr>d_userId = 8, d_eventId = 1, d_ticketTypeId = 1, d_quantity = Some 1\<rparr>"

definition reqFree :: createData where
  "reqFree = \<lparr>d_userId = 7, d_eventId = 1, d_ticketTypeId = 2, d_quantity = None\<rparr>"

definition settlement :: notification where
  "settlement = \<lparr>order_id = ''NV-ORDER-1000-0011223344556677'', status_code = ''200'',
     gross_amount = ''50000.00'',
     signature_key = ''sha512:NV-ORDER-1000-001122334455667720050000.00key'',
     transaction_status = ''settlement'', transaction_id = ''tx-1'',
     fraud_status = Some ''accept''\<rparr>"

definition denial :: notification where
  "denial = settlement\<lparr>transaction_status := ''deny''\<rparr>"

text \<open>
  Sample states. A store that holds a pending paid registration for one unit of the
  paid tier, with its reservation on the tier and its payment intent; the store after
  one delivery of the settlement notification, and after a second delivery one
  millisecond later.
\<close>

definition pendingReg :: registration where
  "pendingReg = \<lparr>reg_id = 100, registrationNumber = ''NV-2025-ABCDEFGHIJ'', userId = 7,
     eventId = 1, ticketTypeId = 1, ticketPrice = 50000,
     quantity = 1, pay_method = ''midtrans'', pay_status = P_pending, pay_amount = 50000,
     pay_totalAmount = 50000, pay_orderId = ''NV-ORDER-1000-0011223344556677'',
     pay_transactionId = None, pay_paidAt = None, pay_expiredAt = 86401000,
     ticketNumber = [], qrCode = [],
     tk_status = T_valid, checkIn = None, status = S_pending_payment, refundStatus = None\<rparr>"

definition heldTier :: ticketType where
  "heldTier = paidTier\<lparr>reserved := 1, available := 0\<rparr>"

definition pendingDb :: db where
  "pendingDb = \<lparr>events = [sampleEvent\<lparr>ticketTypes := [heldTier, freeTier]\<rparr>],
                 registrations = [pendingReg], users = [7, 8], nextId = 101,
                 intents = [''NV-ORDER-1000-0011223344556677''], ticketJobs = []\<rparr>"

definition paidOnce :: db where
  "paidOnce = fst (handlePaymentNotification sampleEnv pendingDb settlement)"

definition paidTwice :: db where
  "paidTwice = fst (handlePaymentNotification envB paidOnce settlement)"

text \<open>
  The pending registration after the expiry job has run past its deadline, and the
  store after a settlement notification that arrives later.
\<close>

definition expiredDb :: db where
  "expiredDb = expirePaymentsJob (sampleEnv\<lparr>now := 90000000\<rparr>) pendingDb"

definition resurrectedDb :: db where
  "resurrectedDb = fst (handlePaymentNotification sampleEnv expiredDb settlement)"

definition expiredReg :: registration where
  "expiredReg = pendingReg\<lparr>pay_status := P_expired, status := S_cancelled, tk_status := T_expired\<rparr>"

text \<open>
  What the claims observe of a tier and of a registration: the pair of \<open>sold\<close> and
  \<open>reserved\<close>, the three statuses that the expiry job sets, and the status of the
  registration stored under an id. Then the sample store after the buyer cancelled the
  pending registration, and after the expiry job ran on it.
\<close>

definition tierCounts :: "db \<Rightarrow> oid \<Rightarrow> oid \<Rightarrow> (int \<times> int) option" where
  "tierCounts d e t = map_option (\<lambda>q. (sold q, reserved q)) (tierOf d e t)"

definition swept :: "registration \<Rightarrow> bool" where
  "swept q = (pay_status q = P_expired \<and> status q = S_cancelled \<and> tk_status q = T_expired)"

definition statusOf :: "db \<Rightarrow> oid \<Rightarrow> reg_status option" where
  "statusOf d i = map_option status (findRegistration d i)"

definition cancelledPendingDb :: db where
  "cancelledPendingDb = fst (cancelRegistration sampleEnv pendingDb 100 7)"

definition sweptAfterCancelDb :: db where
  "sweptAfterCancelDb = expirePaymentsJob (sampleEnv\<lparr>now := 90000000\<rparr>) cancelledPendingDb"

text \<open>
  A notification is a payment success for the registration \<open>i\<close> when its signature is
  valid, its transaction status is \<open>capture\<close> or \<open>settlement\<close>, its fraud status is
  \<open>accept\<close> or missing, and its order id is that of the registration \<open>i\<close>.
\<close>

definition paymentSuccessFor :: "env \<Rightarrow> db \<Rightarrow> notification \<Rightarrow> oid \<Rightarrow> bool" where
  "paymentSuccessFor x d n i =
     (verifyNotification x n
      \<and> (transaction_status n = ''capture'' \<or> transaction_status n = ''settlement'')
      \<and> (fraud_status n = Some ''accept'' \<or> fraud_status n = None \<or> fraud_status n = Some [])
      \<and> map_option reg_id (findByOrderId d (order_id n)) = Some i)"

text \<open>The invariant of a tier that the inventory claims are about.\<close>

definition ledgerOK :: "ticketType \<Rightarrow> bool" where
  "ledgerOK t = (0 \<le> sold t \<and> 0 \<le> reserved t \<and> sold t + reserved t \<le> quota t
                 \<and> available t = quota t - sold t - reserved t \<and> 0 \<le> available t)"

definition ledgerOKat :: "db \<Rightarrow> oid \<Rightarrow> oid \<Rightarrow> bool" where
  "ledgerOKat d e t = (case tierOf d e t of None \<Rightarrow> False | Some tt \<Rightarrow> ledgerOK tt)"

text \<open>
  Calls of \<open>createRegistration\<close> that run one after the other, each with its own
  environment, and what a caller sees of each result.
\<close>

fun createSequentially ::
  "db \<Rightarrow> (env \<times> createData) list
      \<Rightarrow> db \<times> (error + registration \<times> (string \<times> string) option) list" where
  "createSequentially d [] = (d, [])"
| "createSequentially d (c # cs) =
     (let (d1, res) = createRegistration (fst c) d (snd c);
          (d2, ress) = createSequentially d1 cs
      in (d2, res # ress))"

definition outcome :: "error + registration \<times> (string \<times> string) option \<Rightarrow> error option" where
  "outcome res = (case res of Inl e \<Rightarrow> Some e | Inr _ \<Rightarrow> None)"

text \<open>
  A store whose paid tier has room for five units and holds two reserved ones, in two
  variants: one pending registration for two units, and two pending registrations for
  one unit each, of two buyers with different deadlines.
\<close>

definition roomyTier :: ticketType where
  "roomyTier = paidTier\<lparr>quota := 5, reserved := 2, available := 3\<rparr>"

definition twoUnitsReg :: registration where
  "twoUnitsReg = pendingReg\<lparr>quantity := 2, pay_amount := 100000, pay_totalAmount := 100000\<rparr>"

definition twoUnitsDb :: db where
  "twoUnitsDb = pendingDb\<lparr>events := [sampleEvent\<lparr>ticketTypes := [roomyTier, freeTier],
                                                   totalQuota := 15\<rparr>],
                          registrations := [twoUnitsReg]\<rparr>"

definition twoUnitsPaidDb :: db where
  "twoUnitsPaidDb = fst (handlePaymentNotification sampleEnv twoUnitsDb settlement)"

definition pendingReg8 :: registration where
  "pendingReg8 = pendingReg\<lparr>reg_id := 101, registrationNumber := ''NV-2025-KLMNOPQRST'',
     userId := 8, pay_orderId := ''NV-ORDER-1001-8899aabbccddeeff'',
     pay_expiredAt := 172801000\<rparr>"

definition twoBuyersDb :: db where
  "twoBuyersDb = pendingDb\<lparr>events := [sampleEvent\<lparr>ticketTypes := [roomyTier, freeTier],
                                                    totalQuota := 15\<rparr>],
                           registrations := [pendingReg, pendingReg8], nextId := 102,
                           intents := [''NV-ORDER-1000-0011223344556677'',
                                       ''NV-ORDER-1001-8899aabbccddeeff'']\<rparr>"

section \<open>Lemmas on the store and the inventory\<close>

lemma find_updateFirst_same:
  "find P xs = Some x \<Longrightarrow> P (f x) \<Longrightarrow> find P (updateFirst P f xs) = Some (f x)"
  by (induction xs) (auto split: if_splits)

lemma updateFirst_none: "find P xs = None \<Longrightarrow> updateFirst P f xs = xs"
  by (induction xs) (auto split: if_splits)

lemma updateFirst_same: "find P xs = Some x \<Longrightarrow> updateFirst P (\<lambda>_. x) xs = xs"
  by (induction xs) (auto split: if_splits)

lemma find_updateFirst_const:
  "find Q xs = Some r \<Longrightarrow> P r \<Longrightarrow> Q y \<Longrightarrow> find Q (updateFirst P (\<lambda>_. y) xs) = Some y"
  by (induction xs) (auto split: if_splits)

lemma find_updateFirst_disjoint:
  "(\<And>y. P y \<Longrightarrow> \<not> Q y) \<Longrightarrow> (\<And>y. P y \<Longrightarrow> \<not> Q (f y))
     \<Longrightarrow> find Q (updateFirst P f xs) = find Q xs"
  by (induction xs) (auto split: if_splits)

lemma find_map_preserved:
  "(\<And>y. P (g y) = P y) \<Longrightarrow> find P (map g xs) = map_option g (find P xs)"
  by (induction xs) auto

lemma find_Some_holds: "find P xs = Some x \<Longrightarrow> P x"
  by (induction xs) (auto split: if_splits)

lemma find_Some_mem: "find P xs = Some x \<Longrightarrow> x \<in> set xs"
  by (induction xs) (auto split: if_splits)

lemma map_updateFirst_same:
  "find P xs = Some a \<Longrightarrow> g b = g a \<Longrightarrow> map g (updateFirst P (\<lambda>_. b) xs) = map g xs"
  by (induction xs) (auto split: if_splits)

lemma saveEvent_frame [simp]:
  "registrations (saveEvent d ev) = registrations d"
  "users (saveEvent d ev) = users d"
  "nextId (saveEvent d ev) = nextId d"
  "intents (saveEvent d ev) = intents d"
  "ticketJobs (saveEvent d ev) = ticketJobs d"
  by (simp_all add: saveEvent_def Let_def)

lemma recomputeAvailable_setCounts [simp]:
  "recomputeAvailable (setCounts s r t) = setCounts s r t"
  by (simp add: recomputeAvailable_def setCounts_def)

lemma tt_id_recompute [simp]: "tt_id (recomputeAvailable t) = tt_id t"
  by (simp add: recomputeAvailable_def)

lemma tt_id_setCounts [simp]: "tt_id (setCounts s r t) = tt_id t"
  by (simp add: setCounts_def)

lemma findTicketType_eventPreSave:
  "findTicketType (eventPreSave m ev) t =
     (if m then map_option recomputeAvailable (findTicketType ev t) else findTicketType ev t)"
  by (simp add: findTicketType_def eventPreSave_def find_map_preserved)

lemma ev_id_eventPreSave [simp]: "ev_id (eventPreSave m ev) = ev_id ev"
  by (simp add: eventPreSave_def)

lemma findEvent_saveEvent:
  "findEvent d (ev_id ev) = Some old \<Longrightarrow>
   findEvent (saveEvent d ev) (ev_id ev)
     = Some (eventPreSave (ticketTypes old \<noteq> ticketTypes ev) ev)"
  by (simp add: findEvent_def saveEvent_def Let_def find_updateFirst_same)

lemma findEvent_ev_id: "findEvent d e = Some ev \<Longrightarrow> ev_id ev = e"
  by (auto simp: findEvent_def dest: find_Some_holds)

lemma findTicketType_tt_id: "findTicketType ev t = Some tt \<Longrightarrow> tt_id tt = t"
  by (auto simp: findTicketType_def dest: find_Some_holds)

lemma rejectsMin_same [simp]: "\<not> rejectsMin b v v"
  by (simp add: rejectsMin_def)

lemma rejectsMin_nonneg [simp]: "0 \<le> v \<Longrightarrow> \<not> rejectsMin 0 s v"
  by (simp add: rejectsMin_def)

lemma updateTicketAvailability_Inr:
  assumes "updateTicketAvailability d e t s r = Inr d'"
  shows "\<exists>ev tt. findEvent d e = Some ev \<and> findTicketType ev t = Some tt
           \<and> \<not> rejectsMin 0 (sold tt) s \<and> \<not> rejectsMin 0 (reserved tt) r
           \<and> d' = saveEvent d (ev\<lparr>ticketTypes :=
                    updateFirst (\<lambda>q. tt_id q = t) (setCounts s r) (ticketTypes ev),
                  totalSold := sum_list (map sold
                    (updateFirst (\<lambda>q. tt_id q = t) (setCounts s r) (ticketTypes ev))),
                  totalRevenue := sum_list (map (\<lambda>q. sold q * price q)
                    (updateFirst (\<lambda>q. tt_id q = t) (setCounts s r) (ticketTypes ev)))\<rparr>)"
  using assms
  by (auto simp: updateTicketAvailability_def Let_def split: option.splits if_splits)

lemma updateTicketAvailability_event:
  assumes ev: "findEvent d e = Some ev" and tt: "findTicketType ev t = Some tt"
    and upd: "updateTicketAvailability d e t s r = Inr d'"
  shows "\<exists>ev'. findEvent d' e = Some ev' \<and> findTicketType ev' t = Some (setCounts s r tt)
            \<and> ev_status ev' = ev_status ev \<and> registrationOpen ev' = registrationOpen ev
            \<and> registrationClose ev' = registrationClose ev"
proof -
  have id: "ev_id ev = e" using ev by (rule findEvent_ev_id)
  define tts where "tts = updateFirst (\<lambda>q. tt_id q = t) (setCounts s r) (ticketTypes ev)"
  define ev2 where "ev2 = ev\<lparr>ticketTypes := tts, totalSold := sum_list (map sold tts),
                 totalRevenue := sum_list (map (\<lambda>q. sold q * price q) tts)\<rparr>"
  have d': "d' = saveEvent d ev2"
    using updateTicketAvailability_Inr [OF upd] ev tt by (auto simp: ev2_def tts_def)
  have "find (\<lambda>q. tt_id q = t) (ticketTypes ev) = Some tt"
    using tt by (simp add: findTicketType_def)
  moreover have "tt_id (setCounts s r tt) = t"
    using findTicketType_tt_id [OF tt] by simp
  ultimately have "find (\<lambda>q. tt_id q = t) tts = Some (setCounts s r tt)"
    unfolding tts_def by (rule find_updateFirst_same)
  then have f: "findTicketType ev2 t = Some (setCounts s r tt)"
    by (simp add: findTicketType_def ev2_def)
  have id2: "ev_id ev2 = e" using id by (simp add: ev2_def)
  have "findEvent d (ev_id ev2) = Some ev" using ev id2 by simp
  from findEvent_saveEvent [OF this]
  have found: "findEvent d' e = Some (eventPreSave (ticketTypes ev \<noteq> ticketTypes ev2) ev2)"
    using id2 d' by simp
  have "findTicketType (eventPreSave (ticketTypes ev \<noteq> ticketTypes ev2) ev2) t
          = Some (setCounts s r tt)"
    using f by (simp add: findTicketType_eventPreSave)
  moreover have "ev_status (eventPreSave (ticketTypes ev \<noteq> ticketTypes ev2) ev2) = ev_status ev"
    "registrationOpen (eventPreSave (ticketTypes ev \<noteq> ticketTypes ev2) ev2) = registrationOpen ev"
    "registrationClose (eventPreSave (ticketTypes ev \<noteq> ticketTypes ev2) ev2) = registrationClose ev"
    by (simp_all add: eventPreSave_def ev2_def)
  ultimately show ?thesis using found by blast
qed

lemma updateTicketAvailability_tier:
  assumes "tierOf d e t = Some tt" "updateTicketAvailability d e t s r = Inr d'"
  shows "tierOf d' e t = Some (setCounts s r tt)"
proof -
  from assms(1) obtain ev where ev: "findEvent d e = Some ev"
    and tt: "findTicketType ev t = Some tt"
    by (auto simp: tierOf_def split: option.splits)
  from updateTicketAvailability_event [OF ev tt assms(2)] show ?thesis
    by (auto simp: tierOf_def)
qed

lemma updateTicketAvailability_written:
  assumes "updateTicketAvailability d e t s r = Inr d'"
  shows "\<exists>tt. tierOf d e t = Some tt \<and> tierOf d' e t = Some (setCounts s r tt)"
proof -
  from updateTicketAvailability_Inr [OF assms]
  obtain ev tt where "findEvent d e = Some ev" "findTicketType ev t = Some tt" by blast
  then have "tierOf d e t = Some tt" by (simp add: tierOf_def)
  then show ?thesis using updateTicketAvailability_tier [OF _ assms] by blast
qed

lemma updateTicketAvailability_ok:
  "tierOf d e t = Some tt \<Longrightarrow> \<not> rejectsMin 0 (sold tt) s \<Longrightarrow> \<not> rejectsMin 0 (reserved tt) r
     \<Longrightarrow> \<exists>d'. updateTicketAvailability d e t s r = Inr d'"
  by (auto simp: tierOf_def updateTicketAvailability_def Let_def split: option.splits)

lemma updateTicketAvailability_frame:
  "updateTicketAvailability d e t s r = Inr d' \<Longrightarrow>
     registrations d' = registrations d \<and> users d' = users d \<and> nextId d' = nextId d
     \<and> intents d' = intents d \<and> ticketJobs d' = ticketJobs d"
  by (auto simp: updateTicketAvailability_def Let_def split: option.splits if_splits)

lemma adjustTier_eq:
  assumes "tierOf d (eventId r) (ticketTypeId r) = Some tt"
  shows "adjustTier d r f g
           = updateTicketAvailability d (eventId r) (ticketTypeId r) (f tt) (g tt)"
proof -
  from assms obtain ev where ev: "findEvent d (eventId r) = Some ev"
    and tt: "findTicketType ev (ticketTypeId r) = Some tt"
    by (auto simp: tierOf_def split: option.splits)
  show ?thesis
    using ev tt findEvent_ev_id [OF ev] findTicketType_tt_id [OF tt]
    by (simp add: adjustTier_def)
qed

lemma adjustTier_frame:
  assumes "adjustTier d r f g = Inr d2"
  shows "registrations d2 = registrations d \<and> users d2 = users d \<and> nextId d2 = nextId d
         \<and> intents d2 = intents d \<and> ticketJobs d2 = ticketJobs d"
proof (cases "tierOf d (eventId r) (ticketTypeId r)")
  case None
  then have "d2 = d" using assms
    by (auto simp: adjustTier_def tierOf_def split: option.splits)
  then show ?thesis by simp
next
  case (Some tt)
  have "updateTicketAvailability d (eventId r) (ticketTypeId r) (f tt) (g tt) = Inr d2"
    using adjustTier_eq [OF Some, of f g] assms by simp
  then show ?thesis by (rule updateTicketAvailability_frame)
qed

lemma saveRegistration_frame [simp]:
  "events (fst (saveRegistration x d r)) = events d"
  "users (fst (saveRegistration x d r)) = users d"
  "intents (fst (saveRegistration x d r)) = intents d"
  "ticketJobs (fst (saveRegistration x d r)) = ticketJobs d"
  "nextId (fst (saveRegistration x d r)) = nextId d"
  by (simp_all add: saveRegistration_def Let_def)

lemma findEvent_events: "events d' = events d \<Longrightarrow> findEvent d' e = findEvent d e"
  by (simp add: findEvent_def)

lemma tierOf_events: "events d' = events d \<Longrightarrow> tierOf d' e t = tierOf d e t"
  by (simp add: tierOf_def findEvent_def)

lemma ticketNumberHook_fields [simp]:
  "reg_id (ticketNumberHook x m r) = reg_id r"
  "pay_status (ticketNumberHook x m r) = pay_status r"
  "eventId (ticketNumberHook x m r) = eventId r"
  "userId (ticketNumberHook x m r) = userId r"
  "ticketTypeId (ticketNumberHook x m r) = ticketTypeId r"
  "quantity (ticketNumberHook x m r) = quantity r"
  "pay_orderId (ticketNumberHook x m r) = pay_orderId r"
  "tk_status (ticketNumberHook x m r) = tk_status r"
  "pay_amount (ticketNumberHook x m r) = pay_amount r"
  "pay_paidAt (ticketNumberHook x m r) = pay_paidAt r"
  by (simp_all add: ticketNumberHook_def)

section \<open>Lemmas on saving registrations\<close>

lemma saveRegistration_snd:
  "snd (saveRegistration x d r) =
     ticketNumberHook x (case findRegistration d (reg_id r) of None \<Rightarrow> True
                         | Some old \<Rightarrow> pay_status old \<noteq> pay_status r) r"
  by (simp add: saveRegistration_def Let_def)

lemma saveRegistration_regs:
  "registrations (fst (saveRegistration x d r)) =
     updateFirst (\<lambda>q. reg_id q = reg_id r) (\<lambda>_. snd (saveRegistration x d r)) (registrations d)"
  by (simp add: saveRegistration_def Let_def)

lemma findRegistration_reg_id: "findRegistration d i = Some r \<Longrightarrow> reg_id r = i"
  by (auto simp: findRegistration_def dest: find_Some_holds)

lemma findRegistration_save:
  assumes "findRegistration d (reg_id r) = Some old"
  shows "findRegistration (fst (saveRegistration x d r)) (reg_id r) = Some (snd (saveRegistration x d r))"
proof -
  have "find (\<lambda>q. reg_id q = reg_id r) (registrations d) = Some old"
    using assms by (simp add: findRegistration_def)
  moreover have "reg_id (snd (saveRegistration x d r)) = reg_id r"
    by (simp add: saveRegistration_snd)
  ultimately have "find (\<lambda>q. reg_id q = reg_id r)
      (updateFirst (\<lambda>q. reg_id q = reg_id r) (\<lambda>_. snd (saveRegistration x d r)) (registrations d))
        = Some (snd (saveRegistration x d r))"
    by (rule find_updateFirst_same)
  then show ?thesis by (simp add: findRegistration_def saveRegistration_regs)
qed

lemma findRegistration_save_other:
  assumes "reg_id r \<noteq> i"
  shows "findRegistration (fst (saveRegistration x d r)) i = findRegistration d i"
proof -
  have "find (\<lambda>q. reg_id q = i)
          (updateFirst (\<lambda>q. reg_id q = reg_id r) (\<lambda>_. snd (saveRegistration x d r)) (registrations d))
        = find (\<lambda>q. reg_id q = i) (registrations d)"
    using assms by (intro find_updateFirst_disjoint) (auto simp: saveRegistration_snd)
  then show ?thesis by (simp add: findRegistration_def saveRegistration_regs)
qed

lemma findByOrderId_save:
  assumes "findByOrderId d oid = Some r0" "reg_id r = reg_id r0" "pay_orderId r = oid"
  shows "findByOrderId (fst (saveRegistration x d r)) oid = Some (snd (saveRegistration x d r))"
proof -
  have "find (\<lambda>q. pay_orderId q = oid) (registrations d) = Some r0"
    using assms(1) by (simp add: findByOrderId_def)
  moreover have "reg_id r0 = reg_id r" using assms(2) by simp
  moreover have "pay_orderId (snd (saveRegistration x d r)) = oid"
    using assms(3) by (simp add: saveRegistration_snd)
  ultimately have "find (\<lambda>q. pay_orderId q = oid)
      (updateFirst (\<lambda>q. reg_id q = reg_id r) (\<lambda>_. snd (saveRegistration x d r)) (registrations d))
        = Some (snd (saveRegistration x d r))"
    by (rule find_updateFirst_const)
  then show ?thesis by (simp add: findByOrderId_def saveRegistration_regs)
qed

lemma findByOrderId_pay_orderId: "findByOrderId d oid = Some r \<Longrightarrow> pay_orderId r = oid"
  by (auto simp: findByOrderId_def dest: find_Some_holds)

text \<open>Saving a registration and then adjusting its tier.\<close>

lemma save_then_adjust:
  assumes tier: "tierOf d (eventId r) (ticketTypeId r) = Some tt"
    and sv: "saveRegistration x d r = (d1, r1)"
    and valid: "\<not> rejectsMin 0 (sold tt) (f tt)" "\<not> rejectsMin 0 (reserved tt) (g tt)"
  shows "\<exists>d2. adjustTier d1 r1 f g = Inr d2
           \<and> tierOf d2 (eventId r) (ticketTypeId r) = Some (setCounts (f tt) (g tt) tt)
           \<and> registrations d2 = registrations d1 \<and> users d2 = users d
           \<and> nextId d2 = nextId d \<and> intents d2 = intents d \<and> ticketJobs d2 = ticketJobs d"
proof -
  have d1: "d1 = fst (saveRegistration x d r)" and r1: "r1 = snd (saveRegistration x d r)"
    using sv by simp_all
  have same: "eventId r1 = eventId r" "ticketTypeId r1 = ticketTypeId r"
    by (simp_all add: r1 saveRegistration_snd)
  have t1: "tierOf d1 (eventId r1) (ticketTypeId r1) = Some tt"
    using tier same by (simp add: d1 tierOf_events [of "fst (saveRegistration x d r)" d])
  obtain d2 where u: "updateTicketAvailability d1 (eventId r1) (ticketTypeId r1) (f tt) (g tt) = Inr d2"
    using updateTicketAvailability_ok [OF t1 valid] by blast
  have "adjustTier d1 r1 f g = Inr d2"
    using adjustTier_eq [OF t1] u by simp
  moreover have "tierOf d2 (eventId r) (ticketTypeId r) = Some (setCounts (f tt) (g tt) tt)"
    using updateTicketAvailability_tier [OF t1 u] same by simp
  moreover have "registrations d2 = registrations d1 \<and> users d2 = users d
           \<and> nextId d2 = nextId d \<and> intents d2 = intents d \<and> ticketJobs d2 = ticketJobs d"
    using updateTicketAvailability_frame [OF u] by (simp add: d1)
  ultimately show ?thesis by blast
qed

lemma adjustTier_total:
  assumes "\<And>t. \<not> rejectsMin 0 (sold t) (f t)" "\<And>t. \<not> rejectsMin 0 (reserved t) (g t)"
  shows "\<exists>d2. adjustTier d r f g = Inr d2 \<and> registrations d2 = registrations d
         \<and> users d2 = users d \<and> nextId d2 = nextId d \<and> intents d2 = intents d
         \<and> ticketJobs d2 = ticketJobs d"
proof (cases "tierOf d (eventId r) (ticketTypeId r)")
  case None
  then show ?thesis
    by (auto simp: adjustTier_def tierOf_def split: option.splits)
next
  case (Some tt)
  from updateTicketAvailability_ok [OF Some assms(1) assms(2)]
  obtain d2 where u: "updateTicketAvailability d (eventId r) (ticketTypeId r) (f tt) (g tt) = Inr d2"
    by blast
  show ?thesis
    using adjustTier_eq [OF Some, of f g] u updateTicketAvailability_frame [OF u] by simp
qed

section \<open>Check-in with a plaintext payload\<close>

lemma checkInRegistration_confirmed:
  assumes stored: "findRegistration d i = Some r"
    and ok: "status r = S_confirmed" "tk_status r \<noteq> T_used" "tk_status r \<noteq> T_cancelled"
  shows "\<exists>d' r'. checkInRegistration x d i staff = (d', Inr r')
           \<and> findRegistration d' i = Some r'
           \<and> r' = r\<lparr>status := S_attended, tk_status := T_used, checkIn := Some (now x, staff)\<rparr>
           \<and> events d' = events d"
proof -
  define r2 where "r2 = r\<lparr>status := S_attended, tk_status := T_used, checkIn := Some (now x, staff)\<rparr>"
  have id: "reg_id r = i" using stored by (rule findRegistration_reg_id)
  have st: "findRegistration d (reg_id r2) = Some r" using stored id by (simp add: r2_def)
  have s: "snd (saveRegistration x d r2) = r2"
    using st by (simp add: saveRegistration_snd ticketNumberHook_def) (simp add: r2_def)
  have f: "findRegistration (fst (saveRegistration x d r2)) (reg_id r2) = Some r2"
    using findRegistration_save [OF st, of x] s by simp
  have "checkInRegistration x d i staff = (fst (saveRegistration x d r2), Inr r2)"
    using stored ok s by (simp add: checkInRegistration_def r2_def split_beta)
  then show ?thesis using f id by (simp add: r2_def)
qed

text \<open>
  Claim C10. Check-in does not need an authenticated credential. When the presented
  string does not decrypt (the AES decryption or the parsing of its result throws),
  \<open>processCheckIn\<close> parses the string itself as JSON; a plaintext payload that names a
  confirmed registration and its stored ticket number passes \<open>validateQRCode\<close> and the
  registration is checked in.
\<close>

theorem C10_plaintext_payload_checks_in:
  assumes undecryptable: "decryptQRCode x raw = None"
    and plain: "jsonParse x raw = Some qr"
    and age: "now x - qr_timestamp qr \<le> 30 * 24 * 60 * 60 * 1000"
    and stored: "findRegistration d (qr_registrationId qr) = Some r"
    and number: "ticketNumber r = qr_ticketNumber qr"
    and confirmed: "status r = S_confirmed"
    and usable: "tk_status r \<noteq> T_used" "tk_status r \<noteq> T_cancelled"
  shows "\<exists>d' r'. processCheckIn x d raw staff = (d', (True, Some r', CheckInBerhasil))
           \<and> findRegistration d' (qr_registrationId qr) = Some r'
           \<and> status r' = S_attended \<and> tk_status r' = T_used
           \<and> checkIn r' = Some (now x, staff)"
proof -
  have v: "valid (validateQRCode x d qr)"
    using age stored number confirmed usable by (simp add: validateQRCode_def Let_def)
  from checkInRegistration_confirmed [OF stored confirmed usable, of x staff]
  obtain d' r' where c: "checkInRegistration x d (qr_registrationId qr) staff = (d', Inr r')"
    and f: "findRegistration d' (qr_registrationId qr) = Some r'"
    and r': "r' = r\<lparr>status := S_attended, tk_status := T_used, checkIn := Some (now x, staff)\<rparr>"
    by blast
  have "processCheckIn x d raw staff = (d', (True, Some r', CheckInBerhasil))"
    using undecryptable plain v c by (simp add: processCheckIn_def Let_def)
  then show ?thesis using f r' by simp
qed

theorem C10_plaintext_payload_checks_in_witness:
  "decryptQRCode sampleEnv sampleJson = None
   \<and> aesDecrypt sampleEnv sampleJson = None
   \<and> jsonParse sampleEnv sampleJson = Some sampleQr
   \<and> now sampleEnv - qr_timestamp sampleQr \<le> 30 * 24 * 60 * 60 * 1000
   \<and> map_option ticketNumber (findRegistration paidOnce (qr_registrationId sampleQr))
        = Some (qr_ticketNumber sampleQr)
   \<and> map_option status (findRegistration paidOnce (qr_registrationId sampleQr)) = Some S_confirmed
   \<and> map_option tk_status (findRegistration paidOnce (qr_registrationId sampleQr)) = Some T_valid
   \<and> (\<exists>d' r'. processCheckIn sampleEnv paidOnce sampleJson 9 = (d', (True, Some r', CheckInBerhasil))
           \<and> findRegistration d' (qr_registrationId sampleQr) = Some r'
           \<and> status r' = S_attended \<and> tk_status r' = T_used
           \<and> checkIn r' = Some (now sampleEnv, 9))"
proof -
  obtain r where r: "findRegistration paidOnce (qr_registrationId sampleQr) = Some r"
    by (cases "findRegistration paidOnce (qr_registrationId sampleQr)") (code_simp, blast)
  have g: "map_option ticketNumber (findRegistration paidOnce (qr_registrationId sampleQr))
        = Some (qr_ticketNumber sampleQr)"
    "map_option status (findRegistration paidOnce (qr_registrationId sampleQr)) = Some S_confirmed"
    "map_option tk_status (findRegistration paidOnce (qr_registrationId sampleQr)) = Some T_valid"
    by code_simp+
  have h: "decryptQRCode sampleEnv sampleJson = None"
    "jsonParse sampleEnv sampleJson = Some sampleQr"
    "now sampleEnv - qr_timestamp sampleQr \<le> 30 * 24 * 60 * 60 * 1000"
    "aesDecrypt sampleEnv sampleJson = None"
    by code_simp+
  have k: "ticketNumber r = qr_ticketNumber sampleQr" "status r = S_confirmed"
    "tk_status r \<noteq> T_used" "tk_status r \<noteq> T_cancelled"
    using g r by simp_all
  from C10_plaintext_payload_checks_in [OF h(1) h(2) h(3) r k, of 9] g h
  show ?thesis by blast
qed

section \<open>Expiry sweep\<close>

lemma tierCounts_events: "events d' = events d \<Longrightarrow> tierCounts d' e t = tierCounts d e t"
  by (simp add: tierCounts_def tierOf_def findEvent_def)

lemma updateTicketAvailability_counts:
  assumes upd: "updateTicketAvailability d e0 t0 s v = Inr d'"
  shows "tierCounts d' e t = (if e = e0 \<and> t = t0 then Some (s, v) else tierCounts d e t)"
proof -
  from updateTicketAvailability_Inr [OF upd] obtain ev tt0 where ev: "findEvent d e0 = Some ev"
    and tt0: "findTicketType ev t0 = Some tt0"
    and d'0: "d' = saveEvent d (ev\<lparr>ticketTypes :=
                    updateFirst (\<lambda>q. tt_id q = t0) (setCounts s v) (ticketTypes ev),
                  totalSold := sum_list (map sold
                    (updateFirst (\<lambda>q. tt_id q = t0) (setCounts s v) (ticketTypes ev))),
                  totalRevenue := sum_list (map (\<lambda>q. sold q * price q)
                    (updateFirst (\<lambda>q. tt_id q = t0) (setCounts s v) (ticketTypes ev)))\<rparr>)"
    by blast
  have id: "ev_id ev = e0" using ev by (rule findEvent_ev_id)
  define tts where "tts = updateFirst (\<lambda>q. tt_id q = t0) (setCounts s v) (ticketTypes ev)"
  define ev2 where "ev2 = ev\<lparr>ticketTypes := tts, totalSold := sum_list (map sold tts),
                 totalRevenue := sum_list (map (\<lambda>q. sold q * price q) tts)\<rparr>"
  have d': "d' = saveEvent d ev2"
    using d'0 by (simp add: ev2_def tts_def)
  have id2: "ev_id ev2 = e0" using id by (simp add: ev2_def)
  show ?thesis
  proof (cases "e = e0")
    case False
    have "find (\<lambda>q. ev_id q = e)
            (updateFirst (\<lambda>q. ev_id q = e0)
               (\<lambda>_. eventPreSave (case findEvent d e0 of None \<Rightarrow> True
                                   | Some old \<Rightarrow> ticketTypes old \<noteq> ticketTypes ev2) ev2) (events d))
          = find (\<lambda>q. ev_id q = e) (events d)"
      using False id2 by (intro find_updateFirst_disjoint) auto
    then have "findEvent d' e = findEvent d e"
      using id2 by (simp add: d' findEvent_def saveEvent_def Let_def)
    then show ?thesis using False by (simp add: tierCounts_def tierOf_def)
  next
    case True
    show ?thesis
    proof (cases "t = t0")
      case True
      have "tierOf d e0 t0 = Some tt0" using ev tt0 by (simp add: tierOf_def)
      from updateTicketAvailability_tier [OF this upd] show ?thesis
        using True \<open>e = e0\<close> by (simp add: tierCounts_def setCounts_def)
    next
      case False
      have "findEvent d (ev_id ev2) = Some ev" using ev id2 by simp
      from findEvent_saveEvent [OF this]
      have found: "findEvent d' e0 = Some (eventPreSave (ticketTypes ev \<noteq> ticketTypes ev2) ev2)"
        using id2 d' by simp
      have "find (\<lambda>q. tt_id q = t) tts = find (\<lambda>q. tt_id q = t) (ticketTypes ev)"
        unfolding tts_def using False by (intro find_updateFirst_disjoint) auto
      then have same: "findTicketType ev2 t = findTicketType ev t"
        by (simp add: findTicketType_def ev2_def)
      have "map_option (\<lambda>q. (sold q, reserved q))
              (findTicketType (eventPreSave (ticketTypes ev \<noteq> ticketTypes ev2) ev2) t)
            = map_option (\<lambda>q. (sold q, reserved q)) (findTicketType ev t)"
        using same
        by (cases "findTicketType ev t")
           (simp_all add: findTicketType_eventPreSave recomputeAvailable_def)
      then show ?thesis
        using found ev False \<open>e = e0\<close> by (simp add: tierCounts_def tierOf_def)
    qed
  qed
qed

lemma adjustTier_counts:
  assumes "adjustTier d r f g = Inr d2"
  shows "tierCounts d2 e t =
           (if e = eventId r \<and> t = ticketTypeId r
            then map_option (\<lambda>q. (f q, g q)) (tierOf d e t) else tierCounts d e t)"
proof (cases "tierOf d (eventId r) (ticketTypeId r)")
  case None
  then have "d2 = d" using assms
    by (auto simp: adjustTier_def tierOf_def split: option.splits)
  then show ?thesis using None by (auto simp: tierCounts_def)
next
  case (Some tt)
  have "updateTicketAvailability d (eventId r) (ticketTypeId r) (f tt) (g tt) = Inr d2"
    using adjustTier_eq [OF Some, of f g] assms by simp
  from updateTicketAvailability_counts [OF this, of e t] show ?thesis
    using Some by auto
qed

lemma expireRegistration_unfold:
  "\<exists>d2. adjustTier (fst (saveRegistration x d
                 (r\<lparr>pay_status := P_expired, status := S_cancelled, tk_status := T_expired\<rparr>)))
            (snd (saveRegistration x d
                 (r\<lparr>pay_status := P_expired, status := S_cancelled, tk_status := T_expired\<rparr>)))
            sold (\<lambda>t. max 0 (reserved t - quantity r)) = Inr d2
        \<and> expireRegistration x r d = d2
        \<and> registrations d2 = registrations (fst (saveRegistration x d
                 (r\<lparr>pay_status := P_expired, status := S_cancelled, tk_status := T_expired\<rparr>)))"
proof -
  define r' where "r' = r\<lparr>pay_status := P_expired, status := S_cancelled, tk_status := T_expired\<rparr>"
  have q: "quantity (snd (saveRegistration x d r')) = quantity r"
    by (simp add: saveRegistration_snd r'_def)
  have v: "\<And>t. \<not> rejectsMin 0 (sold t) (sold t)"
    "\<And>t. \<not> rejectsMin 0 (reserved t) (max 0 (reserved t - quantity r))"
    by simp_all
  obtain d2 where a: "adjustTier (fst (saveRegistration x d r')) (snd (saveRegistration x d r'))
            sold (\<lambda>t. max 0 (reserved t - quantity r)) = Inr d2"
    and fr: "registrations d2 = registrations (fst (saveRegistration x d r'))"
    using adjustTier_total [of sold "\<lambda>t. max 0 (reserved t - quantity r)"
            "fst (saveRegistration x d r')" "snd (saveRegistration x d r')", OF v]
    by blast
  have "expireRegistration x r d = d2"
    using a q by (simp add: expireRegistration_def r'_def split_beta)
  then show ?thesis using a fr by (simp add: r'_def)
qed

lemma expireRegistration_counts:
  "tierCounts (expireRegistration x r d) e t =
     (if e = eventId r \<and> t = ticketTypeId r
      then map_option (\<lambda>(s, v). (s, max 0 (v - quantity r))) (tierCounts d e t)
      else tierCounts d e t)"
proof -
  define r' where "r' = r\<lparr>pay_status := P_expired, status := S_cancelled, tk_status := T_expired\<rparr>"
  from expireRegistration_unfold [of x d r]
  obtain d2 where a: "adjustTier (fst (saveRegistration x d r')) (snd (saveRegistration x d r'))
            sold (\<lambda>t. max 0 (reserved t - quantity r)) = Inr d2"
    and e: "expireRegistration x r d = d2"
    by (auto simp: r'_def)
  have same: "eventId (snd (saveRegistration x d r')) = eventId r"
    "ticketTypeId (snd (saveRegistration x d r')) = ticketTypeId r"
    by (simp_all add: saveRegistration_snd r'_def)
  have ev: "events (fst (saveRegistration x d r')) = events d" by simp
  have t: "tierOf (fst (saveRegistration x d r')) e t = tierOf d e t"
    by (rule tierOf_events [OF ev])
  have c: "tierCounts (fst (saveRegistration x d r')) e t = tierCounts d e t"
    by (rule tierCounts_events [OF ev])
  from adjustTier_counts [OF a, of e t] show ?thesis
    using e same t c by (cases "tierOf d e t") (auto simp: tierCounts_def)
qed

lemma expireRegistration_swept:
  assumes "findRegistration d (reg_id r) \<noteq> None"
  shows "\<exists>q. findRegistration (expireRegistration x r d) (reg_id r) = Some q \<and> swept q"
proof -
  define r' where "r' = r\<lparr>pay_status := P_expired, status := S_cancelled, tk_status := T_expired\<rparr>"
  from assms obtain old where old: "findRegistration d (reg_id r') = Some old"
    by (auto simp: r'_def)
  from expireRegistration_unfold [of x d r]
  have regs: "registrations (expireRegistration x r d) = registrations (fst (saveRegistration x d r'))"
    by (auto simp: r'_def)
  have "findRegistration (fst (saveRegistration x d r')) (reg_id r') = Some (snd (saveRegistration x d r'))"
    by (rule findRegistration_save [OF old])
  then have "findRegistration (expireRegistration x r d) (reg_id r) = Some (snd (saveRegistration x d r'))"
    using regs by (simp add: findRegistration_def r'_def)
  moreover have "swept (snd (saveRegistration x d r'))"
    by (simp add: swept_def saveRegistration_snd ticketNumberHook_def r'_def)
  ultimately show ?thesis by blast
qed

lemma expireRegistration_other:
  assumes "reg_id r \<noteq> i"
  shows "findRegistration (expireRegistration x r d) i = findRegistration d i"
proof -
  define r' where "r' = r\<lparr>pay_status := P_expired, status := S_cancelled, tk_status := T_expired\<rparr>"
  from expireRegistration_unfold [of x d r]
  have regs: "registrations (expireRegistration x r d) = registrations (fst (saveRegistration x d r'))"
    by (auto simp: r'_def)
  have "reg_id r' \<noteq> i" using assms by (simp add: r'_def)
  from findRegistration_save_other [OF this, of x d] show ?thesis
    using regs by (simp add: findRegistration_def)
qed

lemma expireRegistration_keeps_swept:
  assumes "findRegistration d i = Some q" "swept q"
  shows "\<exists>q'. findRegistration (expireRegistration x r d) i = Some q' \<and> swept q'"
proof (cases "reg_id r = i")
  case True
  then show ?thesis using expireRegistration_swept [of d r x] assms by auto
next
  case False
  then show ?thesis using expireRegistration_other [of r i x d] assms by simp
qed

lemma expireRegistration_keeps_present:
  assumes "findRegistration d i \<noteq> None"
  shows "findRegistration (expireRegistration x r d) i \<noteq> None"
proof (cases "reg_id r = i")
  case True
  then show ?thesis using expireRegistration_swept [of d r x] assms by auto
next
  case False
  then show ?thesis using expireRegistration_other [of r i x d] assms by simp
qed

lemma fold_expire_keeps_swept:
  "findRegistration d i = Some q \<Longrightarrow> swept q \<Longrightarrow>
   \<exists>q'. findRegistration (fold (expireRegistration x) rs d) i = Some q' \<and> swept q'"
proof (induction rs arbitrary: d q)
  case Nil
  then show ?case by auto
next
  case (Cons r rs)
  from expireRegistration_keeps_swept [OF Cons.prems, of x r]
  obtain q' where "findRegistration (expireRegistration x r d) i = Some q'" "swept q'" by blast
  from Cons.IH [OF this] show ?case by simp
qed

lemma fold_expire_swept:
  "r \<in> set rs \<Longrightarrow> \<forall>q \<in> set rs. findRegistration d (reg_id q) \<noteq> None \<Longrightarrow>
   \<exists>q. findRegistration (fold (expireRegistration x) rs d) (reg_id r) = Some q \<and> swept q"
proof (induction rs arbitrary: d)
  case Nil
  then show ?case by simp
next
  case (Cons a rs)
  have present: "\<forall>q \<in> set rs. findRegistration (expireRegistration x a d) (reg_id q) \<noteq> None"
  proof
    fix q assume "q \<in> set rs"
    then have "findRegistration d (reg_id q) \<noteq> None" using Cons.prems(2) by simp
    then show "findRegistration (expireRegistration x a d) (reg_id q) \<noteq> None"
      by (rule expireRegistration_keeps_present)
  qed
  show ?case
  proof (cases "r \<in> set rs")
    case True
    from Cons.IH [OF True present] show ?thesis by simp
  next
    case False
    then have "r = a" using Cons.prems(1) by simp
    moreover have "findRegistration d (reg_id a) \<noteq> None" using Cons.prems(2) by simp
    ultimately obtain q where "findRegistration (expireRegistration x a d) (reg_id r) = Some q" "swept q"
      using expireRegistration_swept [of d a x] by auto
    from fold_expire_keeps_swept [OF this, of x rs] show ?thesis by simp
  qed
qed

lemma fold_expire_counts:
  "tierCounts (fold (expireRegistration x) rs d) e t =
     map_option (\<lambda>(s, v). (s, fold (\<lambda>r v. max 0 (v - quantity r))
        (filter (\<lambda>r. eventId r = e \<and> ticketTypeId r = t) rs) v)) (tierCounts d e t)"
proof (induction rs arbitrary: d)
  case Nil
  then show ?case by (cases "tierCounts d e t") auto
next
  case (Cons a rs)
  show ?case
    by (cases "tierCounts d e t") (auto simp: Cons.IH expireRegistration_counts)
qed

lemma mem_findRegistration: "r \<in> set (registrations d) \<Longrightarrow> findRegistration d (reg_id r) \<noteq> None"
  by (auto simp: findRegistration_def find_None_iff)

text \<open>
  Claim C8, as amended. One run of the expiry job gives every registration that is
  \<open>pending\<close> and past its deadline the payment status \<open>expired\<close>, the status
  \<open>cancelled\<close> and the ticket status \<open>expired\<close>. On each tier \<open>sold\<close> is unchanged,
  and \<open>reserved\<close> is lowered by the quantity of each such registration of the tier in
  turn, but never below 0: each step writes \<open>max 0 (reserved - quantity)\<close>. That is a
  decrement by the quantity only while \<open>reserved\<close> is at least the quantity.
\<close>

theorem C8_expiry_sweep:
  assumes "r \<in> set (registrations d)" "pay_status r = P_pending" "pay_expiredAt r \<le> now x"
  shows "(\<exists>q. findRegistration (expirePaymentsJob x d) (reg_id r) = Some q
             \<and> pay_status q = P_expired \<and> status q = S_cancelled \<and> tk_status q = T_expired)
     \<and> tierCounts (expirePaymentsJob x d) e t =
         map_option (\<lambda>(s, v). (s, fold (\<lambda>r v. max 0 (v - quantity r))
            (filter (\<lambda>r. eventId r = e \<and> ticketTypeId r = t)
               (filter (\<lambda>r. pay_status r = P_pending \<and> pay_expiredAt r \<le> now x) (registrations d)))
            v)) (tierCounts d e t)"
proof -
  let ?rs = "filter (\<lambda>r. pay_status r = P_pending \<and> pay_expiredAt r \<le> now x) (registrations d)"
  have "r \<in> set ?rs" using assms by simp
  moreover have "\<forall>q \<in> set ?rs. findRegistration d (reg_id q) \<noteq> None"
  proof
    fix q assume "q \<in> set ?rs"
    then have "q \<in> set (registrations d)" by simp
    then show "findRegistration d (reg_id q) \<noteq> None" by (rule mem_findRegistration)
  qed
  ultimately have "\<exists>q. findRegistration (fold (expireRegistration x) ?rs d) (reg_id r) = Some q \<and> swept q"
    by (rule fold_expire_swept)
  then show ?thesis
    by (simp add: expirePaymentsJob_def fold_expire_counts swept_def)
qed

text \<open>
  The claim as stated (reserved is decremented by the quantity) fails for a pending
  registration that its buyer cancelled before the deadline: the cancellation released
  the reservation and left the payment status \<open>pending\<close>, so the job expires it with
  \<open>reserved\<close> already 0, and \<open>reserved\<close> stays 0.
\<close>

theorem C8_expiry_sweep_counterexample:
  "map pay_status (registrations cancelledPendingDb) = [P_pending]
   \<and> map quantity (registrations cancelledPendingDb) = [1]
   \<and> map pay_expiredAt (registrations cancelledPendingDb) = [86401000]
   \<and> tierCounts cancelledPendingDb 1 1 = Some (0, 0)
   \<and> map pay_status (registrations sweptAfterCancelDb) = [P_expired]
   \<and> tierCounts sweptAfterCancelDb 1 1 = Some (0, 0)"
  by code_simp

theorem C8_expiry_sweep_witness:
  "pendingReg \<in> set (registrations pendingDb) \<and> pay_status pendingReg = P_pending
   \<and> pay_expiredAt pendingReg \<le> now (sampleEnv\<lparr>now := 90000000\<rparr>)
   \<and> (\<exists>q. findRegistration (expirePaymentsJob (sampleEnv\<lparr>now := 90000000\<rparr>) pendingDb) (reg_id pendingReg) = Some q
             \<and> pay_status q = P_expired \<and> status q = S_cancelled \<and> tk_status q = T_expired)
   \<and> tierCounts pendingDb 1 1 = Some (0, 1)
   \<and> tierCounts (expirePaymentsJob (sampleEnv\<lparr>now := 90000000\<rparr>) pendingDb) 1 1 = Some (0, 0)"
proof -
  have h: "pendingReg \<in> set (registrations pendingDb)" "pay_status pendingReg = P_pending"
    "pay_expiredAt pendingReg \<le> now (sampleEnv\<lparr>now := 90000000\<rparr>)"
    by code_simp+
  have g: "tierCounts pendingDb 1 1 = Some (0, 1)"
    "tierCounts (expirePaymentsJob (sampleEnv\<lparr>now := 90000000\<rparr>) pendingDb) 1 1 = Some (0, 0)"
    by code_simp+
  from C8_expiry_sweep [OF h, of 1 1] h g show ?thesis by blast
qed

section \<open>Round trip of a credential\<close>

text \<open>
  The cipher and the JSON codec are parameters of the model. For a credential that
  decrypts to the payload it was issued with, validation accepts it straight after the
  issue, the check-in succeeds, and a second validation reports the ticket as used at
  the time of that check-in. A string that neither decrypts nor parses is rejected as
  invalid. Which strings decrypt is a property of the cipher, not of this code.
\<close>

lemma issued_credential_validates:
  assumes roundtrip: "decryptQRCode x (issueCredential x r) = Some qr"
    and payload: "qr = \<lparr>qr_ticketNumber = ticketNumber r, qr_registrationId = reg_id r,
                        qr_eventId = eventId r, qr_userId = userId r, qr_timestamp = now x\<rparr>"
    and stored: "findRegistration d (reg_id r) = Some r"
    and confirmed: "status r = S_confirmed"
    and usable: "tk_status r \<noteq> T_used" "tk_status r \<noteq> T_cancelled"
    and later: "now y - now x \<le> 30 * 24 * 60 * 60 * 1000"
  shows "validateQRCode x d qr = \<lparr>valid = True, v_registration = Some r, v_message = QRCodeValid\<rparr>"
    and "\<exists>d' r'. processCheckIn x d (issueCredential x r) staff
                    = (d', (True, Some r', CheckInBerhasil))
            \<and> validateQRCode y d' qr
                  = \<lparr>valid = False, v_registration = Some r',
                     v_message = TiketSudahDigunakanPada (now x)\<rparr>"
proof -
  show v: "validateQRCode x d qr = \<lparr>valid = True, v_registration = Some r, v_message = QRCodeValid\<rparr>"
    using payload stored confirmed usable by (simp add: validateQRCode_def Let_def)
  have stored': "findRegistration d (qr_registrationId qr) = Some r"
    using stored payload by simp
  from checkInRegistration_confirmed [OF stored' confirmed usable, of x staff]
  obtain d' r' where c: "checkInRegistration x d (qr_registrationId qr) staff = (d', Inr r')"
    and f: "findRegistration d' (qr_registrationId qr) = Some r'"
    and r': "r' = r\<lparr>status := S_attended, tk_status := T_used, checkIn := Some (now x, staff)\<rparr>"
    by blast
  have p: "processCheckIn x d (issueCredential x r) staff = (d', (True, Some r', CheckInBerhasil))"
    using roundtrip v c by (simp add: processCheckIn_def Let_def)
  have "validateQRCode y d' qr
          = \<lparr>valid = False, v_registration = Some r', v_message = TiketSudahDigunakanPada (now x)\<rparr>"
    using f r' payload later by (simp add: validateQRCode_def Let_def)
  then show "\<exists>d' r'. processCheckIn x d (issueCredential x r) staff
                    = (d', (True, Some r', CheckInBerhasil))
            \<and> validateQRCode y d' qr
                  = \<lparr>valid = False, v_registration = Some r',
                     v_message = TiketSudahDigunakanPada (now x)\<rparr>"
    using p by blast
qed

lemma undecryptable_credential_rejected:
  "decryptQRCode x c = None \<Longrightarrow> jsonParse x c = None \<Longrightarrow>
   processCheckIn x d c staff = (d, (False, None, QRCodeTidakValid))"
  by (simp add: processCheckIn_def)

section \<open>Creation is rejected\<close>

text \<open>
  The document that \<open>createRegistration\<close> builds never passes the validation of
  \<open>Registration.create\<close>: its order id is the empty string and it has no registration
  number (the hook that would generate one runs after validation). So every call that
  passes the admission checks throws a \<open>ValidationError\<close> before anything is written.
\<close>

lemma newRegistration_invalid: "\<not> validRegistration (newRegistration x data tt)"
  by (simp add: validRegistration_def newRegistration_def Let_def)

lemma reserveAndPay_rejected: "reserveAndPay x d data ev tt = (d, Inl ValidationError)"
  by (simp add: reserveAndPay_def Let_def createDocument_def newRegistration_invalid)

lemma createRegistration_rejected:
  "createRegistration x d data =
     (d, Inl (case admitRegistration x d data of Inl e \<Rightarrow> e | Inr _ \<Rightarrow> ValidationError))"
  by (simp add: createRegistration_def reserveAndPay_rejected split: sum.splits prod.splits)

lemma createSequentially_rejected:
  "fst (createSequentially d calls) = d
   \<and> list_all (\<lambda>res. outcome res \<noteq> None) (snd (createSequentially d calls))"
  by (induction calls) (simp_all add: createRegistration_rejected outcome_def split_beta)


text \<open>
  Claim C7 does not hold on the code. For a free tier the code builds a document with
  status \<open>confirmed\<close> and payment status \<open>paid\<close> and means to generate the ticket in
  the same call, but \<open>Registration.create\<close> rejects the document: the call throws a
  \<open>ValidationError\<close>, returns no registration, and the store is unchanged. The two
  required paths are the cause: the same document with a registration number and an
  order id is accepted, confirmed, and given a ticket number by the pre-save hook.
\<close>

theorem C7_free_registration_rejected:
  "admitRegistration sampleEnv sampleDb reqFree = Inr (sampleEvent, freeTier)
   \<and> price freeTier * requestedQuantity reqFree = 0
   \<and> status (newRegistration sampleEnv reqFree freeTier) = S_confirmed
   \<and> pay_status (newRegistration sampleEnv reqFree freeTier) = P_paid
   \<and> pay_orderId (newRegistration sampleEnv reqFree freeTier) = []
   \<and> registrationNumber (newRegistration sampleEnv reqFree freeTier) = []
   \<and> createDocument sampleEnv sampleDb (newRegistration sampleEnv reqFree freeTier)
        = Inl ValidationError
   \<and> createRegistration sampleEnv sampleDb reqFree = (sampleDb, Inl ValidationError)
   \<and> (case createDocument sampleEnv sampleDb
              ((newRegistration sampleEnv reqFree freeTier)
                 \<lparr>registrationNumber := ''NV-2025-ABCDEFGHIJ'', pay_orderId := ''NV-ORDER-0''\<rparr>) of
         Inl e \<Rightarrow> False
       | Inr (d', reg) \<Rightarrow> status reg = S_confirmed \<and> pay_status reg = P_paid
                          \<and> ticketNumber reg = ''NV-TIX-2025-ABCDEFGHIJKL'')"
  by code_simp

section \<open>Failure of the payment intent\<close>



section \<open>Reservations against a tier\<close>

text \<open>
  Claim C6 does not hold on the code. On a tier with one unit available, two calls for
  one unit each by two eligible users both throw a \<open>ValidationError\<close> at
  \<open>Registration.create\<close>: none succeeds, none is told that the tickets are sold out,
  and the tier is never written. It is the same whether the calls run one after the
  other (\<open>createSequentially\<close>) or overlap, each passing its checks on the same store before
  the other goes on (\<open>admitRegistration\<close>, then \<open>reserveAndPay\<close>).
\<close>

theorem C6_no_reservation_succeeds:
  "tierOf sampleDb 1 1 = Some paidTier \<and> available paidTier = 1
   \<and> admitRegistration sampleEnv sampleDb reqPaid = Inr (sampleEvent, paidTier)
   \<and> admitRegistration envB sampleDb reqPaid8 = Inr (sampleEvent, paidTier)
   \<and> createSequentially sampleDb [(sampleEnv, reqPaid), (envB, reqPaid8)]
        = (sampleDb, [Inl ValidationError, Inl ValidationError])
   \<and> reserveAndPay sampleEnv sampleDb reqPaid sampleEvent paidTier
        = (sampleDb, Inl ValidationError)
   \<and> reserveAndPay envB sampleDb reqPaid8 sampleEvent paidTier
        = (sampleDb, Inl ValidationError)"
  by code_simp

section \<open>Webhook delivered twice\<close>

lemma handleSuccessfulPayment_effect:
  assumes tier: "tierOf d (eventId r) (ticketTypeId r) = Some tt" and sold: "0 \<le> sold tt"
  shows "\<exists>d'. handleSuccessfulPayment x d r tx = (d', Inr ())
     \<and> registrations d' = registrations (fst (saveRegistration x d
           (r\<lparr>pay_status := P_paid, pay_paidAt := Some (now x),
              pay_transactionId := Some tx, status := S_confirmed\<rparr>)))
     \<and> tierOf d' (eventId r) (ticketTypeId r)
           = Some (setCounts (sold tt + 1) (max 0 (reserved tt - 1)) tt)
     \<and> ticketJobs d' = ticketJobs d @ [reg_id r]
     \<and> intents d' = intents d \<and> users d' = users d \<and> nextId d' = nextId d"
proof -
  define r' where "r' = r\<lparr>pay_status := P_paid, pay_paidAt := Some (now x),
                           pay_transactionId := Some tx, status := S_confirmed\<rparr>"
  obtain d1 r1 where sv: "saveRegistration x d r' = (d1, r1)" by (cases "saveRegistration x d r'")
  have tier': "tierOf d (eventId r') (ticketTypeId r') = Some tt"
    using tier by (simp add: r'_def)
  have v: "\<not> rejectsMin 0 (sold tt) (sold tt + 1)" "\<not> rejectsMin 0 (reserved tt) (max 0 (reserved tt - 1))"
    using sold by simp_all
  from save_then_adjust [OF tier' sv, of "\<lambda>t. sold t + 1" "\<lambda>t. max 0 (reserved t - 1)", OF v]
  obtain d2 where a: "adjustTier d1 r1 (\<lambda>t. sold t + 1) (\<lambda>t. max 0 (reserved t - 1)) = Inr d2"
    and t2: "tierOf d2 (eventId r') (ticketTypeId r') = Some (setCounts (sold tt + 1) (max 0 (reserved tt - 1)) tt)"
    and fr: "registrations d2 = registrations d1" "users d2 = users d" "nextId d2 = nextId d"
       "intents d2 = intents d" "ticketJobs d2 = ticketJobs d"
    by blast
  have id1: "reg_id r1 = reg_id r"
  proof -
    have "r1 = snd (saveRegistration x d r')" using sv by simp
    then show ?thesis by (simp add: saveRegistration_snd r'_def)
  qed
  have "handleSuccessfulPayment x d r tx = (d2\<lparr>ticketJobs := ticketJobs d2 @ [reg_id r1]\<rparr>, Inr ())"
    using sv a by (simp add: handleSuccessfulPayment_def r'_def)
  moreover have "d1 = fst (saveRegistration x d r')" using sv by simp
  ultimately show ?thesis
    using t2 fr id1 by (simp add: r'_def tierOf_def findEvent_def)
qed

lemma handlePaymentNotification_success:
  assumes "verifyNotification x n"
    and "transaction_status n = ''settlement'' \<or> transaction_status n = ''capture''"
    and "fraud_status n = Some ''accept'' \<or> fraud_status n = None \<or> fraud_status n = Some []"
    and "findByOrderId d (order_id n) = Some r"
  shows "handlePaymentNotification x d n = handleSuccessfulPayment x d r (transaction_id n)"
  using assms by (auto simp: handlePaymentNotification_def Let_def)

text \<open>
  Claim C1, as amended. A valid settlement notification for a pending registration,
  delivered twice: the first delivery confirms the registration, marks it paid, stamps
  \<open>paidAt\<close> and gives it a ticket number. The second delivery assigns no new ticket
  number and leaves the status and the payment status as they are, but it is not a
  no-op: the handler has no check of the current payment status, so it overwrites
  \<open>paidAt\<close> with the time of the second delivery (the only change that the handler
  makes to any registration document), adds 1 to \<open>sold\<close> again, takes 1 from
  \<open>reserved\<close> again (not below 0) and starts the ticket job a second time.
\<close>

theorem C1_webhook_twice:
  assumes sig: "verifyNotification x n" "verifyNotification y n"
    and ts: "transaction_status n = ''settlement''"
    and fraud: "fraud_status n = Some ''accept'' \<or> fraud_status n = None"
    and found: "findByOrderId d (order_id n) = Some r"
    and stored: "findRegistration d (reg_id r) = Some r"
    and pending: "pay_status r = P_pending"
    and tier: "tierOf d (eventId r) (ticketTypeId r) = Some tt"
    and sold: "0 \<le> sold tt"
    and first: "handlePaymentNotification x d n = (d1, res1)"
    and second: "handlePaymentNotification y d1 n = (d2, res2)"
  shows "res1 = Inr () \<and> res2 = Inr ()
     \<and> (\<exists>r1. findByOrderId d1 (order_id n) = Some r1 \<and> status r1 = S_confirmed
              \<and> pay_status r1 = P_paid \<and> ticketNumber r1 \<noteq> []
              \<and> pay_paidAt r1 = Some (now x)
              \<and> findByOrderId d2 (order_id n) = Some (r1\<lparr>pay_paidAt := Some (now y)\<rparr>))
     \<and> map (\<lambda>q. q\<lparr>pay_paidAt := None\<rparr>) (registrations d2)
         = map (\<lambda>q. q\<lparr>pay_paidAt := None\<rparr>) (registrations d1)
     \<and> (\<exists>t1. tierOf d1 (eventId r) (ticketTypeId r) = Some t1
              \<and> sold t1 = sold tt + 1 \<and> reserved t1 = max 0 (reserved tt - 1))
     \<and> (\<exists>t2. tierOf d2 (eventId r) (ticketTypeId r) = Some t2
              \<and> sold t2 = sold tt + 2 \<and> reserved t2 = max 0 (max 0 (reserved tt - 1) - 1))
     \<and> ticketJobs d2 = ticketJobs d @ [reg_id r, reg_id r]"
proof -
  define tx where "tx = transaction_id n"
  define r' where "r' = r\<lparr>pay_status := P_paid, pay_paidAt := Some (now x),
                           pay_transactionId := Some tx, status := S_confirmed\<rparr>"
  define r1 where "r1 = snd (saveRegistration x d r')"
  define r2 where "r2 = r1\<lparr>pay_paidAt := Some (now y)\<rparr>"
  define t1 where "t1 = setCounts (sold tt + 1) (max 0 (reserved tt - 1)) tt"
  have ts': "transaction_status n = ''settlement'' \<or> transaction_status n = ''capture''"
    using ts by simp
  have fraud': "fraud_status n = Some ''accept'' \<or> fraud_status n = None \<or> fraud_status n = Some []"
    using fraud by blast
  have h1: "handlePaymentNotification x d n = handleSuccessfulPayment x d r tx"
    unfolding tx_def by (rule handlePaymentNotification_success [OF sig(1) ts' fraud' found])
  from handleSuccessfulPayment_effect [OF tier sold, of x tx] first h1
  have res1: "res1 = Inr ()"
    and regs1: "registrations d1 = registrations (fst (saveRegistration x d r'))"
    and tier1: "tierOf d1 (eventId r) (ticketTypeId r) = Some t1"
    and jobs1: "ticketJobs d1 = ticketJobs d @ [reg_id r]"
    by (auto simp: r'_def t1_def)
  have id': "reg_id r' = reg_id r" by (simp add: r'_def)
  have r1_eq: "r1 = ticketNumberHook x True r'"
    using stored pending by (simp add: r1_def saveRegistration_snd id') (simp add: r'_def)
  have r1_fields: "status r1 = S_confirmed" "pay_status r1 = P_paid" "ticketNumber r1 \<noteq> []"
    "pay_transactionId r1 = Some tx" "reg_id r1 = reg_id r" "eventId r1 = eventId r"
    "ticketTypeId r1 = ticketTypeId r" "pay_paidAt r1 = Some (now x)"
    by (simp_all add: r1_eq ticketNumberHook_def r'_def)
  have ord: "pay_orderId r' = order_id n"
    using findByOrderId_pay_orderId [OF found] by (simp add: r'_def)
  have "findByOrderId (fst (saveRegistration x d r')) (order_id n) = Some r1"
    unfolding r1_def using found id' ord by (intro findByOrderId_save) simp_all
  then have found1: "findByOrderId d1 (order_id n) = Some r1"
    using regs1 by (simp add: findByOrderId_def)
  have stored': "findRegistration d (reg_id r') = Some r" using stored id' by simp
  have "findRegistration (fst (saveRegistration x d r')) (reg_id r') = Some r1"
    unfolding r1_def by (rule findRegistration_save [OF stored'])
  then have stored1: "findRegistration d1 (reg_id r1) = Some r1"
    using regs1 r1_fields(5) id' by (simp add: findRegistration_def)
  have tier1': "tierOf d1 (eventId r1) (ticketTypeId r1) = Some t1"
    using tier1 r1_fields by simp
  have sold1: "0 \<le> sold t1" using sold by (simp add: t1_def setCounts_def)
  have h2: "handlePaymentNotification y d1 n = handleSuccessfulPayment y d1 r1 tx"
    unfolding tx_def by (rule handlePaymentNotification_success [OF sig(2) ts' fraud' found1])
  have same: "r1\<lparr>pay_status := P_paid, pay_paidAt := Some (now y),
                  pay_transactionId := Some tx, status := S_confirmed\<rparr> = r2"
    using r1_fields by (simp add: r2_def)
  have id2: "reg_id r2 = reg_id r1" "pay_orderId r2 = order_id n"
    using findByOrderId_pay_orderId [OF found1] by (simp_all add: r2_def)
  have stored1': "findRegistration d1 (reg_id r2) = Some r1" using stored1 id2 by simp
  have snd2: "snd (saveRegistration y d1 r2) = r2"
    using stored1' r1_fields(2)
    by (simp add: saveRegistration_snd ticketNumberHook_def) (simp add: r2_def)
  from handleSuccessfulPayment_effect [OF tier1' sold1, of y tx] second h2
  have res2: "res2 = Inr ()"
    and regs2: "registrations d2 = registrations (fst (saveRegistration y d1 r2))"
    and tier2: "tierOf d2 (eventId r) (ticketTypeId r)
                  = Some (setCounts (sold t1 + 1) (max 0 (reserved t1 - 1)) t1)"
    and jobs2: "ticketJobs d2 = ticketJobs d1 @ [reg_id r]"
    using same r1_fields by auto
  have "findByOrderId (fst (saveRegistration y d1 r2)) (order_id n)
          = Some (snd (saveRegistration y d1 r2))"
    using found1 id2 by (intro findByOrderId_save) simp_all
  then have found2: "findByOrderId d2 (order_id n) = Some r2"
    using regs2 snd2 by (simp add: findByOrderId_def)
  have f1: "find (\<lambda>q. reg_id q = reg_id r2) (registrations d1) = Some r1"
    using stored1' by (simp add: findRegistration_def)
  have "map (\<lambda>q. q\<lparr>pay_paidAt := None\<rparr>)
          (updateFirst (\<lambda>q. reg_id q = reg_id r2) (\<lambda>_. r2) (registrations d1))
        = map (\<lambda>q. q\<lparr>pay_paidAt := None\<rparr>) (registrations d1)"
    using f1 by (rule map_updateFirst_same) (simp add: r2_def)
  then have docs: "map (\<lambda>q. q\<lparr>pay_paidAt := None\<rparr>) (registrations d2)
        = map (\<lambda>q. q\<lparr>pay_paidAt := None\<rparr>) (registrations d1)"
    using regs2 snd2 by (simp add: saveRegistration_regs)
  have "sold t1 = sold tt + 1" "reserved t1 = max 0 (reserved tt - 1)"
    by (simp_all add: t1_def setCounts_def)
  moreover have "sold (setCounts (sold t1 + 1) (max 0 (reserved t1 - 1)) t1) = sold tt + 2"
    "reserved (setCounts (sold t1 + 1) (max 0 (reserved t1 - 1)) t1)
       = max 0 (max 0 (reserved tt - 1) - 1)"
    by (simp_all add: t1_def setCounts_def)
  ultimately show ?thesis
    using res1 res2 found1 found2 r1_fields docs tier1 tier2 jobs1 jobs2
    by (simp add: r2_def)
qed

text \<open>
  The claim as stated (the second delivery does not increment \<open>sold\<close> again) fails on the
  sample store: a tier of quota 1 has \<open>sold = 2\<close> after the second delivery.
\<close>

theorem C1_webhook_twice_counterexample:
  "findByOrderId pendingDb (order_id settlement) = Some pendingReg
   \<and> pay_status pendingReg = P_pending
   \<and> verifyNotification sampleEnv settlement
   \<and> verifyNotification envB settlement
   \<and> tierCounts pendingDb 1 1 = Some (0, 1)
   \<and> tierCounts paidOnce 1 1 = Some (1, 0)
   \<and> tierCounts paidTwice 1 1 = Some (2, 0)
   \<and> map_option quota (tierOf paidTwice 1 1) = Some 1
   \<and> map pay_paidAt (registrations paidOnce) = [Some 1000]
   \<and> map pay_paidAt (registrations paidTwice) = [Some 1001]
   \<and> ticketJobs paidOnce = [100]
   \<and> ticketJobs paidTwice = [100, 100]
   \<and> paidTwice \<noteq> paidOnce"
  by code_simp

theorem C1_webhook_twice_witness:
  "verifyNotification sampleEnv settlement \<and> verifyNotification envB settlement
   \<and> transaction_status settlement = ''settlement''
   \<and> (fraud_status settlement = Some ''accept'' \<or> fraud_status settlement = None)
   \<and> findByOrderId pendingDb (order_id settlement) = Some pendingReg
   \<and> findRegistration pendingDb (reg_id pendingReg) = Some pendingReg
   \<and> pay_status pendingReg = P_pending
   \<and> tierOf pendingDb (eventId pendingReg) (ticketTypeId pendingReg) = Some heldTier
   \<and> 0 \<le> sold heldTier
   \<and> map (\<lambda>q. q\<lparr>pay_paidAt := None\<rparr>) (registrations paidTwice)
         = map (\<lambda>q. q\<lparr>pay_paidAt := None\<rparr>) (registrations paidOnce)
   \<and> ticketJobs paidTwice = ticketJobs pendingDb @ [reg_id pendingReg, reg_id pendingReg]"
proof -
  have h: "verifyNotification sampleEnv settlement" "verifyNotification envB settlement"
    "transaction_status settlement = ''settlement''"
    "fraud_status settlement = Some ''accept'' \<or> fraud_status settlement = None"
    "findByOrderId pendingDb (order_id settlement) = Some pendingReg"
    "findRegistration pendingDb (reg_id pendingReg) = Some pendingReg"
    "pay_status pendingReg = P_pending"
    "tierOf pendingDb (eventId pendingReg) (ticketTypeId pendingReg) = Some heldTier"
    "0 \<le> sold heldTier"
    by code_simp+
  have f: "handlePaymentNotification sampleEnv pendingDb settlement
             = (paidOnce, snd (handlePaymentNotification sampleEnv pendingDb settlement))"
    "handlePaymentNotification envB paidOnce settlement
             = (paidTwice, snd (handlePaymentNotification envB paidOnce settlement))"
    by (simp_all add: paidOnce_def paidTwice_def)
  from C1_webhook_twice [OF h f] h
  show ?thesis by blast
qed

section \<open>Cancelled registrations\<close>

lemma statusOf_regs: "registrations d' = registrations d \<Longrightarrow> statusOf d' i = statusOf d i"
  by (simp add: statusOf_def findRegistration_def)

lemma save_keeps_cancelled:
  assumes c: "statusOf d i = Some S_cancelled"
    and st: "reg_id r' = i \<Longrightarrow> status r' = S_cancelled"
    and p: "reg_id r' = i \<Longrightarrow>
              pay_status r' \<noteq> P_paid \<or> map_option pay_status (findRegistration d i) = Some (pay_status r')"
  shows "statusOf (fst (saveRegistration x d r')) i = Some S_cancelled"
proof (cases "reg_id r' = i")
  case False
  from findRegistration_save_other [OF False, of x d] show ?thesis
    using c by (simp add: statusOf_def)
next
  case True
  from c obtain old where old: "findRegistration d (reg_id r') = Some old"
    using True by (auto simp: statusOf_def)
  have "findRegistration (fst (saveRegistration x d r')) (reg_id r') = Some (snd (saveRegistration x d r'))"
    by (rule findRegistration_save [OF old])
  moreover have "status (snd (saveRegistration x d r')) = S_cancelled"
    using st [OF True] p [OF True] old True
    by (auto simp: saveRegistration_snd ticketNumberHook_def)
  ultimately show ?thesis using True by (simp add: statusOf_def)
qed

lemma save_loaded_keeps_cancelled:
  assumes c: "statusOf d i = Some S_cancelled" and l: "findRegistration d j = Some r0"
    and id: "reg_id r' = j" and st: "status r' = status r0 \<or> status r' = S_cancelled"
    and p: "pay_status r' = pay_status r0 \<or> pay_status r' \<noteq> P_paid"
  shows "statusOf (fst (saveRegistration x d r')) i = Some S_cancelled"
proof (rule save_keeps_cancelled [OF c])
  assume "reg_id r' = i"
  then have "findRegistration d i = Some r0" using l id by simp
  then show "status r' = S_cancelled" using c st by (auto simp: statusOf_def)
next
  assume "reg_id r' = i"
  then have "findRegistration d i = Some r0" using l id by simp
  then show "pay_status r' \<noteq> P_paid \<or> map_option pay_status (findRegistration d i) = Some (pay_status r')"
    using p by auto
qed

lemma distinct_find_id:
  "distinct (map reg_id rs) \<Longrightarrow> q \<in> set rs \<Longrightarrow> find (\<lambda>r. reg_id r = reg_id q) rs = Some q"
  by (induction rs) (auto simp: image_iff)

lemma findByOrderId_loaded:
  assumes "distinct (map reg_id (registrations d))" "findByOrderId d oid = Some q"
  shows "findRegistration d (reg_id q) = Some q"
proof -
  have "q \<in> set (registrations d)"
    using assms(2) by (auto simp: findByOrderId_def dest: find_Some_mem)
  from distinct_find_id [OF assms(1) this] show ?thesis by (simp add: findRegistration_def)
qed

text \<open>The operations that find a registration by its id.\<close>

lemma checkInRegistration_keeps_cancelled:
  assumes c: "statusOf d i = Some S_cancelled"
  shows "statusOf (fst (checkInRegistration x d j staff)) i = Some S_cancelled"
proof (cases "findRegistration d j")
  case None
  then show ?thesis using c by (simp add: checkInRegistration_def)
next
  case (Some r0)
  have id: "reg_id r0 = j" using Some by (rule findRegistration_reg_id)
  show ?thesis
  proof (cases "status r0 = S_confirmed \<and> tk_status r0 \<noteq> T_used \<and> tk_status r0 \<noteq> T_cancelled")
    case False
    then show ?thesis using c Some by (auto simp: checkInRegistration_def)
  next
    case True
    have ne: "j \<noteq> i" using True Some c by (auto simp: statusOf_def)
    define r' where "r' = r0\<lparr>status := S_attended, tk_status := T_used, checkIn := Some (now x, staff)\<rparr>"
    have "reg_id r' \<noteq> i" using ne id by (simp add: r'_def)
    from findRegistration_save_other [OF this, of x d]
    have "statusOf (fst (saveRegistration x d r')) i = Some S_cancelled"
      using c by (simp add: statusOf_def)
    then show ?thesis using Some True by (simp add: checkInRegistration_def split_beta r'_def)
  qed
qed

lemma undoCheckIn_keeps_cancelled:
  assumes c: "statusOf d i = Some S_cancelled"
  shows "statusOf (fst (undoCheckIn x d j)) i = Some S_cancelled"
proof (cases "findRegistration d j")
  case None
  then show ?thesis using c by (simp add: undoCheckIn_def)
next
  case (Some r0)
  have id: "reg_id r0 = j" using Some by (rule findRegistration_reg_id)
  show ?thesis
  proof (cases "status r0 = S_attended")
    case False
    then show ?thesis using c Some by (simp add: undoCheckIn_def)
  next
    case True
    have ne: "j \<noteq> i" using True Some c by (auto simp: statusOf_def)
    define r' where "r' = r0\<lparr>status := S_confirmed, tk_status := T_valid, checkIn := None\<rparr>"
    have "reg_id r' \<noteq> i" using ne id by (simp add: r'_def)
    from findRegistration_save_other [OF this, of x d]
    have "statusOf (fst (saveRegistration x d r')) i = Some S_cancelled"
      using c by (simp add: statusOf_def)
    then show ?thesis using Some True by (simp add: undoCheckIn_def split_beta r'_def)
  qed
qed

lemma processCheckIn_store:
  "fst (processCheckIn x d raw staff) = d
   \<or> (\<exists>j. fst (processCheckIn x d raw staff) = fst (checkInRegistration x d j staff))"
proof (cases "case decryptQRCode x raw of Some q \<Rightarrow> Some q | None \<Rightarrow> jsonParse x raw")
  case None
  then show ?thesis by (simp add: processCheckIn_def)
next
  case (Some qr)
  show ?thesis
  proof (cases "valid (validateQRCode x d qr)")
    case False
    then show ?thesis using Some by (simp add: processCheckIn_def Let_def)
  next
    case True
    obtain d1 res where ci: "checkInRegistration x d (qr_registrationId qr) staff = (d1, res)"
      by (cases "checkInRegistration x d (qr_registrationId qr) staff")
    have "fst (processCheckIn x d raw staff) = d1"
      using Some True ci by (cases res) (simp_all add: processCheckIn_def Let_def)
    then have "fst (processCheckIn x d raw staff)
                 = fst (checkInRegistration x d (qr_registrationId qr) staff)"
      using ci by simp
    then show ?thesis by blast
  qed
qed

lemma processCheckIn_keeps_cancelled:
  assumes c: "statusOf d i = Some S_cancelled"
  shows "statusOf (fst (processCheckIn x d raw staff)) i = Some S_cancelled"
  using processCheckIn_store [of x d raw staff] c checkInRegistration_keeps_cancelled [OF c, of x _ staff]
  by auto

lemma requestRefund_keeps_cancelled:
  assumes c: "statusOf d i = Some S_cancelled"
  shows "statusOf (fst (requestRefund x d j)) i = Some S_cancelled"
proof (cases "findRegistration d j")
  case None
  then show ?thesis using c by (simp add: requestRefund_def)
next
  case (Some r0)
  have id: "reg_id r0 = j" using Some by (rule findRegistration_reg_id)
  have "statusOf (fst (saveRegistration x d (r0\<lparr>refundStatus := Some ''pending''\<rparr>))) i
          = Some S_cancelled"
    using id by (intro save_loaded_keeps_cancelled [OF c Some]) simp_all
  then show ?thesis using c Some by (simp add: requestRefund_def)
qed

lemma createPayment_keeps_cancelled:
  assumes c: "statusOf d i = Some S_cancelled"
  shows "statusOf (fst (createPayment x d j a)) i = Some S_cancelled"
proof (cases "findRegistration d j")
  case None
  then show ?thesis using c by (simp add: createPayment_def)
next
  case (Some r0)
  have id: "reg_id r0 = j" using Some by (rule findRegistration_reg_id)
  define d1 where "d1 = d\<lparr>intents := intents d @ [''NV-ORDER-'' @ nowText x @ ''-'' @ token x]\<rparr>"
  define r' where "r' = r0\<lparr>pay_orderId := ''NV-ORDER-'' @ nowText x @ ''-'' @ token x,
                            pay_method := ''midtrans'', pay_totalAmount := a + 0\<rparr>"
  have c1: "statusOf d1 i = Some S_cancelled"
    using c by (simp add: d1_def statusOf_def findRegistration_def)
  have l1: "findRegistration d1 j = Some r0"
    using Some by (simp add: d1_def findRegistration_def)
  have "statusOf (fst (saveRegistration x d1 r')) i = Some S_cancelled"
    using id by (intro save_loaded_keeps_cancelled [OF c1 l1]) (simp_all add: r'_def)
  then show ?thesis
    using c c1 Some by (simp add: createPayment_def Let_def split_beta d1_def r'_def)
qed

lemma generateTicket_keeps_cancelled:
  assumes c: "statusOf d i = Some S_cancelled" and l: "findRegistration d (reg_id q) = Some q"
  shows "statusOf (fst (generateTicket x d q)) i = Some S_cancelled"
proof (cases "findEvent d (eventId q)")
  case None
  then show ?thesis using c by (simp add: generateTicket_def)
next
  case (Some ev)
  show ?thesis
  proof (cases "artifactsOk x")
    case False
    then show ?thesis using c Some by (simp add: generateTicket_def Let_def)
  next
    case True
    define tn where "tn = (if ticketNumber q \<noteq> [] then ticketNumber q else ''NV-TIX-'' @ nowText x)"
    define q' where "q' = q\<lparr>ticketNumber := tn,
        qrCode := jsonStringify x \<lparr>qr_ticketNumber = tn, qr_registrationId = reg_id q,
                    qr_eventId = ev_id ev, qr_userId = userId q, qr_timestamp = now x\<rparr>\<rparr>"
    have "statusOf (fst (saveRegistration x d q')) i = Some S_cancelled"
      by (rule save_loaded_keeps_cancelled [OF c l]) (simp_all add: q'_def)
    then show ?thesis
      using Some True by (simp add: generateTicket_def Let_def split_beta q'_def tn_def)
  qed
qed

lemma cancelRegistration_rejected:
  assumes "findRegistration d i = Some r"
  shows "userId r \<noteq> uid \<Longrightarrow> fst (cancelRegistration x d i uid) = d"
    and "status r = S_cancelled \<Longrightarrow> fst (cancelRegistration x d i uid) = d"
    and "status r = S_attended \<Longrightarrow> fst (cancelRegistration x d i uid) = d"
  using assms by (simp_all add: cancelRegistration_def)

text \<open>
  A cancellation that is not rejected saves the registration, adjusts the tier (the
  counts it writes are never rejected), and asks for a refund when the payment was paid.
\<close>

lemma cancelRegistration_unfold:
  assumes stored: "findRegistration d j = Some r0"
    and st: "userId r0 = uid" "status r0 \<noteq> S_cancelled" "status r0 \<noteq> S_attended"
  shows "\<exists>d1 r1 d2.
           saveRegistration x d
             (r0\<lparr>status := S_cancelled, tk_status := T_cancelled,
                 refundStatus := Some (if pay_status r0 = P_paid then ''pending''
                                       else ''not_applicable'')\<rparr>) = (d1, r1)
         \<and> adjustTier d1 r1
              (\<lambda>t. if pay_status r0 = P_paid then max 0 (sold t - 1) else sold t)
              (\<lambda>t. if pay_status r0 = P_pending then max 0 (reserved t - 1) else reserved t)
             = Inr d2
         \<and> registrations d2 = registrations d1
         \<and> cancelRegistration x d j uid =
             (if pay_status r0 = P_paid
              then (case requestRefund x d2 j of
                      (d3, Inl e) \<Rightarrow> (d3, Inl e)
                    | (d3, Inr _) \<Rightarrow> (d3, Inr r1))
              else (d2, Inr r1))"
proof -
  define r' where "r' = r0\<lparr>status := S_cancelled, tk_status := T_cancelled,
       refundStatus := Some (if pay_status r0 = P_paid then ''pending'' else ''not_applicable'')\<rparr>"
  obtain d1 r1 where sv: "saveRegistration x d r' = (d1, r1)" by (cases "saveRegistration x d r'")
  have p: "pay_status r1 = pay_status r0"
  proof -
    have "r1 = snd (saveRegistration x d r')" using sv by simp
    then show ?thesis by (simp add: saveRegistration_snd r'_def)
  qed
  define f :: "ticketType \<Rightarrow> int"
    where "f = (\<lambda>t. if pay_status r0 = P_paid then max 0 (sold t - 1) else sold t)"
  define g :: "ticketType \<Rightarrow> int"
    where "g = (\<lambda>t. if pay_status r0 = P_pending then max 0 (reserved t - 1) else reserved t)"
  have v: "\<And>t. \<not> rejectsMin 0 (sold t) (f t)" "\<And>t. \<not> rejectsMin 0 (reserved t) (g t)"
    by (simp_all add: f_def g_def)
  from adjustTier_total [of f g d1 r1, OF v]
  obtain d2 where a: "adjustTier d1 r1 f g = Inr d2" and fr: "registrations d2 = registrations d1"
    by blast
  have sv': "saveRegistration x d
         (r0\<lparr>status := S_cancelled, tk_status := T_cancelled,
            refundStatus := Some (if pay_status r0 = P_paid then ''pending'' else ''not_applicable'')\<rparr>)
       = (d1, r1)"
    using sv by (simp only: r'_def)
  have a': "adjustTier d1 r1
              (\<lambda>t. if pay_status r1 = P_paid then max 0 (sold t - 1) else sold t)
              (\<lambda>t. if pay_status r1 = P_pending then max 0 (reserved t - 1) else reserved t)
            = Inr d2"
    using a by (simp only: f_def g_def p)
  have unfold: "cancelRegistration x d j uid =
      (if pay_status r1 = P_paid
       then (case requestRefund x d2 j of
               (d3, Inl e) \<Rightarrow> (d3, Inl e)
             | (d3, Inr _) \<Rightarrow> (d3, Inr r1))
       else (d2, Inr r1))"
    unfolding cancelRegistration_def
    by (simp only: stored option.case st if_False if_True not_True_eq_False refl sv' Let_def
          prod.case a' sum.case)
  show ?thesis
    using sv' a fr unfold by (simp add: f_def g_def p)
qed

lemma cancelRegistration_keeps_cancelled:
  assumes c: "statusOf d i = Some S_cancelled"
  shows "statusOf (fst (cancelRegistration x d j uid)) i = Some S_cancelled"
proof (cases "findRegistration d j")
  case None
  then show ?thesis using c by (simp add: cancelRegistration_def)
next
  case (Some r0)
  have id: "reg_id r0 = j" using Some by (rule findRegistration_reg_id)
  show ?thesis
  proof (cases "userId r0 \<noteq> uid \<or> status r0 = S_cancelled \<or> status r0 = S_attended")
    case True
    then have "fst (cancelRegistration x d j uid) = d"
      using cancelRegistration_rejected [OF Some] by blast
    then show ?thesis using c by simp
  next
    case False
    then have st: "userId r0 = uid" "status r0 \<noteq> S_cancelled" "status r0 \<noteq> S_attended"
      by auto
    define r' where "r' = r0\<lparr>status := S_cancelled, tk_status := T_cancelled,
       refundStatus := Some (if pay_status r0 = P_paid then ''pending'' else ''not_applicable'')\<rparr>"
    from cancelRegistration_unfold [OF Some st, of x]
    obtain d1 r1 d2 where sv: "saveRegistration x d r' = (d1, r1)"
      and fr: "registrations d2 = registrations d1"
      and u: "cancelRegistration x d j uid =
             (if pay_status r0 = P_paid
              then (case requestRefund x d2 j of
                      (d3, Inl e) \<Rightarrow> (d3, Inl e)
                    | (d3, Inr _) \<Rightarrow> (d3, Inr r1))
              else (d2, Inr r1))"
      by (auto simp: r'_def)
    have "statusOf (fst (saveRegistration x d r')) i = Some S_cancelled"
      using id by (intro save_loaded_keeps_cancelled [OF c Some]) (simp_all add: r'_def)
    then have c1: "statusOf d1 i = Some S_cancelled" using sv by simp
    have c2: "statusOf d2 i = Some S_cancelled"
      using statusOf_regs [OF fr, of i] c1 by simp
    have "fst (cancelRegistration x d j uid)
            = (if pay_status r0 = P_paid then fst (requestRefund x d2 j) else d2)"
      by (simp add: u split_beta split: sum.splits)
    then show ?thesis
      using c2 requestRefund_keeps_cancelled [OF c2, of x j] by simp
  qed
qed

text \<open>The expiry job.\<close>

lemma expireRegistration_keeps_cancelled:
  assumes c: "statusOf d i = Some S_cancelled"
  shows "statusOf (expireRegistration x r d) i = Some S_cancelled"
proof -
  define r' where "r' = r\<lparr>pay_status := P_expired, status := S_cancelled, tk_status := T_expired\<rparr>"
  from expireRegistration_unfold [of x d r]
  have regs: "registrations (expireRegistration x r d) = registrations (fst (saveRegistration x d r'))"
    by (auto simp: r'_def)
  have "statusOf (fst (saveRegistration x d r')) i = Some S_cancelled"
    by (rule save_keeps_cancelled [OF c]) (simp_all add: r'_def)
  then show ?thesis using statusOf_regs [OF regs, of i] by simp
qed

lemma fold_expire_keeps_cancelled:
  "statusOf d i = Some S_cancelled \<Longrightarrow>
   statusOf (fold (expireRegistration x) rs d) i = Some S_cancelled"
proof (induction rs arbitrary: d)
  case Nil
  then show ?case by simp
next
  case (Cons a rs)
  from Cons.IH [OF expireRegistration_keeps_cancelled [OF Cons.prems, of x a]]
  show ?case by simp
qed

text \<open>The webhook handlers. Whatever the ledger write does, the registration stays as saved.\<close>

lemma handleSuccessfulPayment_regs:
  "registrations (fst (handleSuccessfulPayment x d r tx))
     = registrations (fst (saveRegistration x d
           (r\<lparr>pay_status := P_paid, pay_paidAt := Some (now x),
              pay_transactionId := Some tx, status := S_confirmed\<rparr>)))"
  by (auto simp: handleSuccessfulPayment_def split_beta split: sum.splits dest: adjustTier_frame)

lemma handleFailedPayment_regs:
  "registrations (fst (handleFailedPayment x d r reason))
     = registrations (fst (saveRegistration x d
           (r\<lparr>pay_status := (if reason = ''expire'' then P_expired else P_failed),
              status := S_cancelled\<rparr>)))"
  by (auto simp: handleFailedPayment_def split_beta split: sum.splits dest: adjustTier_frame)

lemma handleRefund_regs:
  "registrations (fst (handleRefund x d r))
     = registrations (fst (saveRegistration x d
           (r\<lparr>pay_status := P_refunded, status := S_cancelled, tk_status := T_cancelled\<rparr>)))"
  by (auto simp: handleRefund_def split_beta split: sum.splits dest: adjustTier_frame)

lemma handleFailedPayment_keeps_cancelled:
  assumes c: "statusOf d i = Some S_cancelled"
  shows "statusOf (fst (handleFailedPayment x d q reason)) i = Some S_cancelled"
proof -
  have "statusOf (fst (saveRegistration x d
           (q\<lparr>pay_status := (if reason = ''expire'' then P_expired else P_failed),
              status := S_cancelled\<rparr>))) i = Some S_cancelled"
    by (rule save_keeps_cancelled [OF c]) simp_all
  then show ?thesis using statusOf_regs [OF handleFailedPayment_regs, of x d q reason i] by simp
qed

lemma handleRefund_keeps_cancelled:
  assumes c: "statusOf d i = Some S_cancelled"
  shows "statusOf (fst (handleRefund x d q)) i = Some S_cancelled"
proof -
  have "statusOf (fst (saveRegistration x d
           (q\<lparr>pay_status := P_refunded, status := S_cancelled, tk_status := T_cancelled\<rparr>))) i
          = Some S_cancelled"
    by (rule save_keeps_cancelled [OF c]) simp_all
  then show ?thesis using statusOf_regs [OF handleRefund_regs, of x d q i] by simp
qed

lemma markPending_keeps_cancelled:
  assumes c: "statusOf d i = Some S_cancelled" and l: "findRegistration d (reg_id q) = Some q"
  shows "statusOf (fst (saveRegistration x d (q\<lparr>pay_status := P_pending\<rparr>))) i = Some S_cancelled"
  by (rule save_loaded_keeps_cancelled [OF c l]) simp_all

lemma handleSuccessfulPayment_other:
  assumes "reg_id q \<noteq> i"
  shows "findRegistration (fst (handleSuccessfulPayment x d q tx)) i = findRegistration d i"
proof -
  define q' where "q' = q\<lparr>pay_status := P_paid, pay_paidAt := Some (now x),
                           pay_transactionId := Some tx, status := S_confirmed\<rparr>"
  have "reg_id q' \<noteq> i" using assms by (simp add: q'_def)
  from findRegistration_save_other [OF this, of x d] show ?thesis
    using handleSuccessfulPayment_regs [of x d q tx] by (simp add: findRegistration_def q'_def)
qed

lemma handleSuccessfulPayment_confirms:
  assumes "findRegistration d (reg_id q) = Some old"
  shows "\<exists>q'. findRegistration (fst (handleSuccessfulPayment x d q tx)) (reg_id q) = Some q'
            \<and> status q' = S_confirmed \<and> pay_status q' = P_paid"
proof -
  define q2 where "q2 = q\<lparr>pay_status := P_paid, pay_paidAt := Some (now x),
                           pay_transactionId := Some tx, status := S_confirmed\<rparr>"
  have st: "findRegistration d (reg_id q2) = Some old" using assms by (simp add: q2_def)
  have "findRegistration (fst (saveRegistration x d q2)) (reg_id q2)
          = Some (snd (saveRegistration x d q2))"
    by (rule findRegistration_save [OF st])
  then have "findRegistration (fst (handleSuccessfulPayment x d q tx)) (reg_id q)
          = Some (snd (saveRegistration x d q2))"
    using handleSuccessfulPayment_regs [of x d q tx] by (simp add: findRegistration_def q2_def)
  moreover have "status (snd (saveRegistration x d q2)) = S_confirmed"
    "pay_status (snd (saveRegistration x d q2)) = P_paid"
    by (simp_all add: saveRegistration_snd ticketNumberHook_def q2_def)
  ultimately show ?thesis by blast
qed

lemma handlePaymentNotification_other:
  assumes c: "statusOf d i = Some S_cancelled"
    and ids: "distinct (map reg_id (registrations d))"
    and other: "\<not> paymentSuccessFor x d n i"
  shows "statusOf (fst (handlePaymentNotification x d n)) i = Some S_cancelled"
proof (cases "verifyNotification x n")
  case False
  then show ?thesis using c by (simp add: handlePaymentNotification_def)
next
  case sig: True
  show ?thesis
  proof (cases "findByOrderId d (order_id n)")
    case None
    then show ?thesis using c by (simp add: handlePaymentNotification_def)
  next
    case (Some q)
    have l: "findRegistration d (reg_id q) = Some q"
      by (rule findByOrderId_loaded [OF ids Some])
    note keep = handleFailedPayment_keeps_cancelled [OF c, of x q "transaction_status n"]
      handleRefund_keeps_cancelled [OF c, of x q]
      markPending_keeps_cancelled [OF c l, of x]
    show ?thesis
    proof (cases "(transaction_status n = ''capture'' \<or> transaction_status n = ''settlement'')
        \<and> (fraud_status n = Some ''accept'' \<or> fraud_status n = None \<or> fraud_status n = Some [])")
      case True
      then have ne: "reg_id q \<noteq> i"
        using other sig Some by (auto simp: paymentSuccessFor_def)
      have "handlePaymentNotification x d n = handleSuccessfulPayment x d q (transaction_id n)"
        using sig Some True by (auto simp: handlePaymentNotification_def Let_def)
      then show ?thesis
        using handleSuccessfulPayment_other [OF ne, of x d "transaction_id n"] c
        by (simp add: statusOf_def)
    next
      case False
      then show ?thesis
        using sig Some c keep
        by (auto simp: handlePaymentNotification_def Let_def)
    qed
  qed
qed

lemma handlePaymentNotification_resurrects:
  assumes stored: "findRegistration d i = Some r" and success: "paymentSuccessFor x d n i"
  shows "\<exists>q'. findRegistration (fst (handlePaymentNotification x d n)) i = Some q'
            \<and> status q' = S_confirmed \<and> pay_status q' = P_paid"
proof -
  from success obtain q where q: "findByOrderId d (order_id n) = Some q" and id: "reg_id q = i"
    by (auto simp: paymentSuccessFor_def)
  have "handlePaymentNotification x d n = handleSuccessfulPayment x d q (transaction_id n)"
    using success q by (auto simp: handlePaymentNotification_def paymentSuccessFor_def Let_def)
  moreover have "findRegistration d (reg_id q) = Some r" using stored id by simp
  ultimately show ?thesis
    using handleSuccessfulPayment_confirms [of d q r x "transaction_id n"] id by simp
qed

text \<open>
  Claim C2, as amended. A registration in status \<open>cancelled\<close> keeps that status under
  every operation but one: explicit cancellation, check-in by id and by QR code,
  undo-check-in, a refund request, the creation of a payment or of a registration, the
  generation of a ticket for a stored registration, the expiry job, the handlers of a
  failed payment and of a refund, and every notification of the payment provider that
  is not a payment success for this registration. A payment success for its order id
  is the exception: it sets the status to \<open>confirmed\<close> and the payment status to
  \<open>paid\<close>, whatever the status was before. The ids of the stored registrations are
  distinct.
\<close>

theorem C2_cancelled_left_only_by_payment_success:
  assumes stored: "findRegistration d i = Some r"
    and cancelled: "status r = S_cancelled"
    and ids: "distinct (map reg_id (registrations d))"
  shows "statusOf (fst (cancelRegistration x d j uid)) i = Some S_cancelled
     \<and> statusOf (fst (checkInRegistration x d j staff)) i = Some S_cancelled
     \<and> statusOf (fst (processCheckIn x d raw staff)) i = Some S_cancelled
     \<and> statusOf (fst (undoCheckIn x d j)) i = Some S_cancelled
     \<and> statusOf (fst (requestRefund x d j)) i = Some S_cancelled
     \<and> statusOf (fst (createPayment x d j a)) i = Some S_cancelled
     \<and> statusOf (fst (createRegistration x d data)) i = Some S_cancelled
     \<and> (findRegistration d (reg_id q) = Some q \<longrightarrow>
           statusOf (fst (generateTicket x d q)) i = Some S_cancelled)
     \<and> statusOf (expirePaymentsJob x d) i = Some S_cancelled
     \<and> statusOf (fst (handleFailedPayment x d q reason)) i = Some S_cancelled
     \<and> statusOf (fst (handleRefund x d q)) i = Some S_cancelled
     \<and> statusOf (fst (handlePaymentNotification x d n)) i
          = Some (if paymentSuccessFor x d n i then S_confirmed else S_cancelled)
     \<and> (paymentSuccessFor x d n i \<longrightarrow>
           map_option pay_status (findRegistration (fst (handlePaymentNotification x d n)) i)
             = Some P_paid)"
proof -
  have c: "statusOf d i = Some S_cancelled"
    using stored cancelled by (simp add: statusOf_def)
  have k1: "statusOf (fst (cancelRegistration x d j uid)) i = Some S_cancelled"
    by (rule cancelRegistration_keeps_cancelled [OF c])
  have k2: "statusOf (fst (checkInRegistration x d j staff)) i = Some S_cancelled"
    by (rule checkInRegistration_keeps_cancelled [OF c])
  have k3: "statusOf (fst (processCheckIn x d raw staff)) i = Some S_cancelled"
    by (rule processCheckIn_keeps_cancelled [OF c])
  have k4: "statusOf (fst (undoCheckIn x d j)) i = Some S_cancelled"
    by (rule undoCheckIn_keeps_cancelled [OF c])
  have k5: "statusOf (fst (requestRefund x d j)) i = Some S_cancelled"
    by (rule requestRefund_keeps_cancelled [OF c])
  have k6: "statusOf (fst (createPayment x d j a)) i = Some S_cancelled"
    by (rule createPayment_keeps_cancelled [OF c])
  have k7: "statusOf (fst (createRegistration x d data)) i = Some S_cancelled"
    using c by (simp add: createRegistration_rejected)
  have k8: "statusOf (expirePaymentsJob x d) i = Some S_cancelled"
    unfolding expirePaymentsJob_def by (rule fold_expire_keeps_cancelled [OF c])
  have k9: "statusOf (fst (handlePaymentNotification x d n)) i
          = Some (if paymentSuccessFor x d n i then S_confirmed else S_cancelled)"
  proof (cases "paymentSuccessFor x d n i")
    case True
    then show ?thesis
      using handlePaymentNotification_resurrects [OF stored True] by (auto simp: statusOf_def)
  next
    case False
    then show ?thesis using handlePaymentNotification_other [OF c ids False] by simp
  qed
  have k10: "map_option pay_status (findRegistration (fst (handlePaymentNotification x d n)) i)
          = Some P_paid"
    if "paymentSuccessFor x d n i"
    using handlePaymentNotification_resurrects [OF stored that] by auto
  have k11: "statusOf (fst (generateTicket x d q)) i = Some S_cancelled"
    if "findRegistration d (reg_id q) = Some q"
    using that by (rule generateTicket_keeps_cancelled [OF c])
  have k12: "statusOf (fst (handleFailedPayment x d q reason)) i = Some S_cancelled"
    by (rule handleFailedPayment_keeps_cancelled [OF c])
  have k13: "statusOf (fst (handleRefund x d q)) i = Some S_cancelled"
    by (rule handleRefund_keeps_cancelled [OF c])
  from k1 k2 k3 k4 k5 k6 k7 k8 k9 k10 k11 k12 k13 show ?thesis by blast
qed

text \<open>
  The claim as stated fails: the registration that the expiry job cancelled is
  \<open>confirmed\<close> and \<open>paid\<close> after a late settlement notification.
\<close>

theorem C2_cancelled_resurrected_counterexample:
  "map status (registrations expiredDb) = [S_cancelled]
   \<and> map pay_status (registrations expiredDb) = [P_expired]
   \<and> map pay_orderId (registrations expiredDb) = [order_id settlement]
   \<and> verifyNotification sampleEnv settlement
   \<and> transaction_status settlement = ''settlement''
   \<and> map status (registrations resurrectedDb) = [S_confirmed]
   \<and> map pay_status (registrations resurrectedDb) = [P_paid]"
  by code_simp

theorem C2_cancelled_left_only_by_payment_success_witness:
  "findRegistration expiredDb 100 = Some expiredReg
   \<and> status expiredReg = S_cancelled
   \<and> distinct (map reg_id (registrations expiredDb))
   \<and> paymentSuccessFor sampleEnv expiredDb settlement 100
   \<and> \<not> paymentSuccessFor sampleEnv expiredDb denial 100
   \<and> statusOf (fst (cancelRegistration sampleEnv expiredDb 100 7)) 100 = Some S_cancelled
   \<and> statusOf (fst (checkInRegistration sampleEnv expiredDb 100 9)) 100 = Some S_cancelled
   \<and> statusOf (fst (processCheckIn sampleEnv expiredDb sampleJson 9)) 100 = Some S_cancelled
   \<and> statusOf (fst (undoCheckIn sampleEnv expiredDb 100)) 100 = Some S_cancelled
   \<and> findRegistration expiredDb (reg_id expiredReg) = Some expiredReg
   \<and> statusOf (fst (generateTicket sampleEnv expiredDb expiredReg)) 100 = Some S_cancelled
   \<and> statusOf (expirePaymentsJob sampleEnv expiredDb) 100 = Some S_cancelled
   \<and> statusOf (fst (handleRefund sampleEnv expiredDb expiredReg)) 100 = Some S_cancelled
   \<and> statusOf (fst (handlePaymentNotification sampleEnv expiredDb denial)) 100 = Some S_cancelled
   \<and> statusOf (fst (handlePaymentNotification sampleEnv expiredDb settlement)) 100
        = Some S_confirmed
   \<and> map_option pay_status
         (findRegistration (fst (handlePaymentNotification sampleEnv expiredDb settlement)) 100)
        = Some P_paid"
proof -
  have h: "findRegistration expiredDb 100 = Some expiredReg"
    "status expiredReg = S_cancelled"
    "distinct (map reg_id (registrations expiredDb))"
    by code_simp+
  have g: "paymentSuccessFor sampleEnv expiredDb settlement 100"
    "\<not> paymentSuccessFor sampleEnv expiredDb denial 100"
    "findRegistration expiredDb (reg_id expiredReg) = Some expiredReg"
    by code_simp+
  note s = C2_cancelled_left_only_by_payment_success
             [OF h, of sampleEnv 100 7 9 sampleJson 50000 reqPaid8 expiredReg "''deny''" settlement]
  note t = C2_cancelled_left_only_by_payment_success
             [OF h, of sampleEnv 100 7 9 sampleJson 50000 reqPaid8 expiredReg "''deny''" denial]
  from s t h g show ?thesis by simp
qed

section \<open>Inventory conservation\<close>

lemma ledgerOK_setCounts:
  "0 \<le> s \<Longrightarrow> 0 \<le> v \<Longrightarrow> s + v \<le> quota tt \<Longrightarrow> ledgerOK (setCounts s v tt)"
  by (simp add: ledgerOK_def setCounts_def)

lemma save_adjust_ledgerOK:
  assumes tier: "tierOf d (eventId r) (ticketTypeId r) = Some tt"
    and sv: "saveRegistration x d r = (d1, r1)"
    and adj: "adjustTier d1 r1 f g = res"
    and bound: "0 \<le> f tt" "0 \<le> g tt" "f tt + g tt \<le> quota tt"
  shows "\<exists>d2. res = Inr d2 \<and> ledgerOKat d2 (eventId r) (ticketTypeId r)"
proof -
  have v: "\<not> rejectsMin 0 (sold tt) (f tt)" "\<not> rejectsMin 0 (reserved tt) (g tt)"
    using bound by simp_all
  from save_then_adjust [OF tier sv, of f g, OF v] adj
  obtain d2 where "res = Inr d2"
    "tierOf d2 (eventId r) (ticketTypeId r) = Some (setCounts (f tt) (g tt) tt)"
    by auto
  then show ?thesis using ledgerOK_setCounts [OF bound] by (simp add: ledgerOKat_def)
qed

lemma handleSuccessfulPayment_ledgerOK:
  assumes "tierOf d (eventId r) (ticketTypeId r) = Some tt" "ledgerOK tt" "1 \<le> reserved tt"
  shows "ledgerOKat (fst (handleSuccessfulPayment x d r tx)) (eventId r) (ticketTypeId r)"
proof -
  have s: "0 \<le> sold tt" using assms(2) by (simp add: ledgerOK_def)
  from handleSuccessfulPayment_effect [OF assms(1) s, of x tx]
  obtain d' where "handleSuccessfulPayment x d r tx = (d', Inr ())"
    "tierOf d' (eventId r) (ticketTypeId r) = Some (setCounts (sold tt + 1) (max 0 (reserved tt - 1)) tt)"
    by blast
  moreover have "ledgerOK (setCounts (sold tt + 1) (max 0 (reserved tt - 1)) tt)"
    using assms(2,3) by (intro ledgerOK_setCounts) (auto simp: ledgerOK_def)
  ultimately show ?thesis by (simp add: ledgerOKat_def)
qed

lemma handleFailedPayment_ledgerOK:
  assumes "tierOf d (eventId r) (ticketTypeId r) = Some tt" "ledgerOK tt"
  shows "ledgerOKat (fst (handleFailedPayment x d r reason)) (eventId r) (ticketTypeId r)"
proof -
  define r' where "r' = r\<lparr>pay_status := (if reason = ''expire'' then P_expired else P_failed),
                           status := S_cancelled\<rparr>"
  obtain d1 r1 where sv: "saveRegistration x d r' = (d1, r1)" by (cases "saveRegistration x d r'")
  have tier': "tierOf d (eventId r') (ticketTypeId r') = Some tt" using assms(1) by (simp add: r'_def)
  have b: "0 \<le> sold tt" "0 \<le> max 0 (reserved tt - 1)" "sold tt + max 0 (reserved tt - 1) \<le> quota tt"
    using assms(2) by (auto simp: ledgerOK_def)
  from save_adjust_ledgerOK [OF tier' sv refl, of sold "\<lambda>t. max 0 (reserved t - 1)", OF b]
  obtain d2 where "adjustTier d1 r1 sold (\<lambda>t. max 0 (reserved t - 1)) = Inr d2"
    "ledgerOKat d2 (eventId r') (ticketTypeId r')" by blast
  then show ?thesis using sv by (simp add: handleFailedPayment_def r'_def)
qed

lemma handleRefund_ledgerOK:
  assumes "tierOf d (eventId r) (ticketTypeId r) = Some tt" "ledgerOK tt"
  shows "ledgerOKat (fst (handleRefund x d r)) (eventId r) (ticketTypeId r)"
proof -
  define r' where "r' = r\<lparr>pay_status := P_refunded, status := S_cancelled, tk_status := T_cancelled\<rparr>"
  obtain d1 r1 where sv: "saveRegistration x d r' = (d1, r1)" by (cases "saveRegistration x d r'")
  have tier': "tierOf d (eventId r') (ticketTypeId r') = Some tt" using assms(1) by (simp add: r'_def)
  have b: "0 \<le> max 0 (sold tt - 1)" "0 \<le> reserved tt" "max 0 (sold tt - 1) + reserved tt \<le> quota tt"
    using assms(2) by (auto simp: ledgerOK_def)
  from save_adjust_ledgerOK [OF tier' sv refl, of "\<lambda>t. max 0 (sold t - 1)" reserved, OF b]
  obtain d2 where "adjustTier d1 r1 (\<lambda>t. max 0 (sold t - 1)) reserved = Inr d2"
    "ledgerOKat d2 (eventId r') (ticketTypeId r')" by blast
  then show ?thesis using sv by (simp add: handleRefund_def r'_def)
qed

lemma expireRegistration_ledgerOK:
  assumes "tierOf d (eventId r) (ticketTypeId r) = Some tt" "ledgerOK tt" "0 \<le> quantity r"
  shows "ledgerOKat (expireRegistration x r d) (eventId r) (ticketTypeId r)"
proof -
  define r' where "r' = r\<lparr>pay_status := P_expired, status := S_cancelled, tk_status := T_expired\<rparr>"
  obtain d1 r1 where sv: "saveRegistration x d r' = (d1, r1)" by (cases "saveRegistration x d r'")
  have q: "quantity r1 = quantity r"
  proof -
    have "r1 = snd (saveRegistration x d r')" using sv by simp
    then show ?thesis by (simp add: saveRegistration_snd r'_def)
  qed
  have tier': "tierOf d (eventId r') (ticketTypeId r') = Some tt" using assms(1) by (simp add: r'_def)
  have b: "0 \<le> sold tt" "0 \<le> max 0 (reserved tt - quantity r)"
    "sold tt + max 0 (reserved tt - quantity r) \<le> quota tt"
    using assms(2,3) by (auto simp: ledgerOK_def)
  from save_adjust_ledgerOK [OF tier' sv refl, of sold "\<lambda>t. max 0 (reserved t - quantity r)", OF b]
  obtain d2 where "adjustTier d1 r1 sold (\<lambda>t. max 0 (reserved t - quantity r)) = Inr d2"
    "ledgerOKat d2 (eventId r') (ticketTypeId r')" by blast
  then show ?thesis using sv q by (simp add: expireRegistration_def r'_def)
qed

lemma requestRefund_events [simp]: "events (fst (requestRefund x d i)) = events d"
  by (simp add: requestRefund_def split: option.splits)

lemma ledgerOKat_events: "events d' = events d \<Longrightarrow> ledgerOKat d' e t = ledgerOKat d e t"
  by (simp add: ledgerOKat_def tierOf_def findEvent_def)

lemma cancelRegistration_ledgerOK:
  assumes stored: "findRegistration d i = Some r"
    and tier: "tierOf d (eventId r) (ticketTypeId r) = Some tt" and ok: "ledgerOK tt"
  shows "ledgerOKat (fst (cancelRegistration x d i uid)) (eventId r) (ticketTypeId r)"
proof (cases "userId r \<noteq> uid \<or> status r = S_cancelled \<or> status r = S_attended")
  case True
  then have "fst (cancelRegistration x d i uid) = d"
    using stored cancelRegistration_rejected [of d i r] by blast
  then show ?thesis using tier ok by (simp add: ledgerOKat_def)
next
  case False
  then have st: "userId r = uid" "status r \<noteq> S_cancelled" "status r \<noteq> S_attended"
    by auto
  define r' where "r' = r\<lparr>status := S_cancelled, tk_status := T_cancelled,
       refundStatus := Some (if pay_status r = P_paid then ''pending'' else ''not_applicable'')\<rparr>"
  define f :: "ticketType \<Rightarrow> int"
    where "f = (\<lambda>t. if pay_status r = P_paid then max 0 (sold t - 1) else sold t)"
  define g :: "ticketType \<Rightarrow> int"
    where "g = (\<lambda>t. if pay_status r = P_pending then max 0 (reserved t - 1) else reserved t)"
  from cancelRegistration_unfold [OF stored st, of x]
  obtain d1 r1 d2 where sv: "saveRegistration x d r' = (d1, r1)"
    and a: "adjustTier d1 r1 f g = Inr d2"
    and u: "cancelRegistration x d i uid =
             (if pay_status r = P_paid
              then (case requestRefund x d2 i of
                      (d3, Inl e) \<Rightarrow> (d3, Inl e)
                    | (d3, Inr _) \<Rightarrow> (d3, Inr r1))
              else (d2, Inr r1))"
    by (auto simp: r'_def f_def g_def)
  have tier': "tierOf d (eventId r') (ticketTypeId r') = Some tt" using tier by (simp add: r'_def)
  have b: "0 \<le> f tt" "0 \<le> g tt" "f tt + g tt \<le> quota tt"
    using ok by (auto simp: ledgerOK_def f_def g_def)
  from save_adjust_ledgerOK [OF tier' sv a b]
  have l: "ledgerOKat d2 (eventId r) (ticketTypeId r)" by (simp add: r'_def)
  have "fst (cancelRegistration x d i uid)
          = (if pay_status r = P_paid then fst (requestRefund x d2 i) else d2)"
    by (simp add: u split_beta split: sum.splits)
  then have "events (fst (cancelRegistration x d i uid)) = events d2"
    by simp
  from ledgerOKat_events [OF this] show ?thesis using l by simp
qed

lemma reserve_ledgerOK:
  assumes tier: "tierOf d e t = Some tt" and ok: "ledgerOK tt"
    and q: "0 \<le> q" "q \<le> available tt"
  shows "\<exists>d2. updateTicketAvailability d e t (sold tt) (reserved tt + q) = Inr d2
            \<and> ledgerOKat d2 e t"
proof -
  have v: "\<not> rejectsMin 0 (sold tt) (sold tt)" "\<not> rejectsMin 0 (reserved tt) (reserved tt + q)"
    using ok q by (simp_all add: ledgerOK_def)
  from updateTicketAvailability_ok [OF tier v]
  obtain d2 where u: "updateTicketAvailability d e t (sold tt) (reserved tt + q) = Inr d2"
    by blast
  have "ledgerOK (setCounts (sold tt) (reserved tt + q) tt)"
    using ok q by (intro ledgerOK_setCounts) (auto simp: ledgerOK_def)
  then show ?thesis
    using u updateTicketAvailability_tier [OF tier u] by (simp add: ledgerOKat_def)
qed

text \<open>
  Claim C4, as amended. Every successful write of the ledger leaves the written tier with
  the counts it was given and with \<open>available = quota - sold - reserved\<close>, whatever
  the tier was before. The bound \<open>sold + reserved \<le> quota\<close> (with \<open>available \<ge> 0\<close>)
  is not enforced by the ledger; on a tier that satisfies it, it is preserved by the
  release on payment failure, expiry, cancellation and refund, by the conversion on
  payment success while at least one unit is reserved, and by a reservation write that
  raises \<open>reserved\<close> by a quantity between 0 and \<open>available\<close>. Nothing is claimed for a
  conversion with \<open>reserved = 0\<close> or for a reservation of more than \<open>available\<close>.
\<close>

theorem C4_inventory_conservation:
  "(updateTicketAvailability d e t s v = Inr d' \<longrightarrow>
       (\<exists>t'. tierOf d' e t = Some t' \<and> sold t' = s \<and> reserved t' = v
             \<and> available t' = quota t' - sold t' - reserved t'))
   \<and> (tierOf d (eventId r) (ticketTypeId r) = Some tt \<and> ledgerOK tt \<longrightarrow>
        (1 \<le> reserved tt \<longrightarrow>
            ledgerOKat (fst (handleSuccessfulPayment x d r tx)) (eventId r) (ticketTypeId r))
        \<and> ledgerOKat (fst (handleFailedPayment x d r reason)) (eventId r) (ticketTypeId r)
        \<and> ledgerOKat (fst (handleRefund x d r)) (eventId r) (ticketTypeId r)
        \<and> (0 \<le> quantity r \<longrightarrow>
              ledgerOKat (expireRegistration x r d) (eventId r) (ticketTypeId r))
        \<and> (findRegistration d i = Some r \<longrightarrow>
              ledgerOKat (fst (cancelRegistration x d i uid)) (eventId r) (ticketTypeId r))
        \<and> (0 \<le> q \<and> q \<le> available tt \<longrightarrow>
              (\<exists>d2. updateTicketAvailability d (eventId r) (ticketTypeId r)
                       (sold tt) (reserved tt + q) = Inr d2
                    \<and> ledgerOKat d2 (eventId r) (ticketTypeId r))))"
proof -
  have a: "\<exists>t'. tierOf d' e t = Some t' \<and> sold t' = s \<and> reserved t' = v
                 \<and> available t' = quota t' - sold t' - reserved t'"
    if "updateTicketAvailability d e t s v = Inr d'"
    using updateTicketAvailability_written [OF that] by (auto simp: setCounts_def)
  have rest: "(1 \<le> reserved tt \<longrightarrow>
            ledgerOKat (fst (handleSuccessfulPayment x d r tx)) (eventId r) (ticketTypeId r))
        \<and> ledgerOKat (fst (handleFailedPayment x d r reason)) (eventId r) (ticketTypeId r)
        \<and> ledgerOKat (fst (handleRefund x d r)) (eventId r) (ticketTypeId r)
        \<and> (0 \<le> quantity r \<longrightarrow>
              ledgerOKat (expireRegistration x r d) (eventId r) (ticketTypeId r))
        \<and> (findRegistration d i = Some r \<longrightarrow>
              ledgerOKat (fst (cancelRegistration x d i uid)) (eventId r) (ticketTypeId r))
        \<and> (0 \<le> q \<and> q \<le> available tt \<longrightarrow>
              (\<exists>d2. updateTicketAvailability d (eventId r) (ticketTypeId r)
                       (sold tt) (reserved tt + q) = Inr d2
                    \<and> ledgerOKat d2 (eventId r) (ticketTypeId r)))"
    if tier: "tierOf d (eventId r) (ticketTypeId r) = Some tt" and ok: "ledgerOK tt"
  proof -
    have b: "ledgerOKat (fst (handleSuccessfulPayment x d r tx)) (eventId r) (ticketTypeId r)"
      if "1 \<le> reserved tt"
      using that by (rule handleSuccessfulPayment_ledgerOK [OF tier ok])
    have c: "ledgerOKat (fst (handleFailedPayment x d r reason)) (eventId r) (ticketTypeId r)"
      by (rule handleFailedPayment_ledgerOK [OF tier ok])
    have e: "ledgerOKat (fst (handleRefund x d r)) (eventId r) (ticketTypeId r)"
      by (rule handleRefund_ledgerOK [OF tier ok])
    have f: "ledgerOKat (expireRegistration x r d) (eventId r) (ticketTypeId r)"
      if "0 \<le> quantity r"
      using that by (rule expireRegistration_ledgerOK [OF tier ok])
    have g: "ledgerOKat (fst (cancelRegistration x d i uid)) (eventId r) (ticketTypeId r)"
      if "findRegistration d i = Some r"
      by (rule cancelRegistration_ledgerOK [OF that tier ok])
    have h: "\<exists>d2. updateTicketAvailability d (eventId r) (ticketTypeId r)
                       (sold tt) (reserved tt + q) = Inr d2
                    \<and> ledgerOKat d2 (eventId r) (ticketTypeId r)"
      if "0 \<le> q" "q \<le> available tt"
      using that by (rule reserve_ledgerOK [OF tier ok])
    from b c e f g h show ?thesis by blast
  qed
  from a rest show ?thesis by blast
qed

text \<open>
  The claim as stated fails for the sequence convert, convert (a settlement notification
  delivered twice) on a tier of quota 1 whose one unit is reserved: \<open>sold = 2\<close> and
  \<open>available = -1\<close>.
\<close>

theorem C4_inventory_conservation_counterexample:
  "ledgerOKat pendingDb 1 1 \<and> ledgerOKat paidOnce 1 1
   \<and> \<not> ledgerOKat paidTwice 1 1
   \<and> map_option quota (tierOf paidTwice 1 1) = Some 1
   \<and> map_option sold (tierOf paidTwice 1 1) = Some 2
   \<and> map_option reserved (tierOf paidTwice 1 1) = Some 0
   \<and> map_option available (tierOf paidTwice 1 1) = Some (- 1)"
  by code_simp

theorem C4_inventory_conservation_witness:
  "updateTicketAvailability twoUnitsDb 1 1 0 2 = Inr twoUnitsDb
   \<and> tierOf twoUnitsDb (eventId twoUnitsReg) (ticketTypeId twoUnitsReg) = Some roomyTier
   \<and> ledgerOK roomyTier
   \<and> 1 \<le> reserved roomyTier
   \<and> 0 \<le> quantity twoUnitsReg
   \<and> findRegistration twoUnitsDb 100 = Some twoUnitsReg
   \<and> (0::int) \<le> 1 \<and> 1 \<le> available roomyTier
   \<and> (\<exists>t'. tierOf twoUnitsDb 1 1 = Some t' \<and> sold t' = 0 \<and> reserved t' = 2
             \<and> available t' = quota t' - sold t' - reserved t')
   \<and> ledgerOKat (fst (handleSuccessfulPayment sampleEnv twoUnitsDb twoUnitsReg ''tx-1''))
         (eventId twoUnitsReg) (ticketTypeId twoUnitsReg)
   \<and> ledgerOKat (fst (handleFailedPayment sampleEnv twoUnitsDb twoUnitsReg ''deny''))
         (eventId twoUnitsReg) (ticketTypeId twoUnitsReg)
   \<and> ledgerOKat (fst (handleRefund sampleEnv twoUnitsDb twoUnitsReg))
         (eventId twoUnitsReg) (ticketTypeId twoUnitsReg)
   \<and> ledgerOKat (expireRegistration sampleEnv twoUnitsReg twoUnitsDb)
         (eventId twoUnitsReg) (ticketTypeId twoUnitsReg)
   \<and> ledgerOKat (fst (cancelRegistration sampleEnv twoUnitsDb 100 7))
         (eventId twoUnitsReg) (ticketTypeId twoUnitsReg)
   \<and> (\<exists>d2. updateTicketAvailability twoUnitsDb (eventId twoUnitsReg) (ticketTypeId twoUnitsReg)
                (sold roomyTier) (reserved roomyTier + 1) = Inr d2
            \<and> ledgerOKat d2 (eventId twoUnitsReg) (ticketTypeId twoUnitsReg))"
proof -
  have h: "updateTicketAvailability twoUnitsDb 1 1 0 2 = Inr twoUnitsDb"
    "tierOf twoUnitsDb (eventId twoUnitsReg) (ticketTypeId twoUnitsReg) = Some roomyTier"
    "ledgerOK roomyTier"
    "1 \<le> reserved roomyTier"
    "0 \<le> quantity twoUnitsReg"
    "findRegistration twoUnitsDb 100 = Some twoUnitsReg"
    "1 \<le> available roomyTier"
    by code_simp+
  note t = C4_inventory_conservation [of twoUnitsDb 1 1 0 2 twoUnitsDb twoUnitsReg roomyTier
             sampleEnv "''tx-1''" "''deny''" 100 7 1]
  from t h show ?thesis by simp
qed

section \<open>Release of a reservation\<close>

text \<open>
  Claim C5 does not hold on the code. On the paid path the conversion on payment success
  and the release on a failed payment or a cancellation move one unit whatever the
  quantity is, where the expiry job releases the whole quantity: a pending registration
  for two units that holds two reserved units is confirmed with one unit sold and one
  unit still reserved, and nothing releases that unit afterwards. A reservation is also
  released twice: a pending registration that its buyer cancels keeps the payment
  status \<open>pending\<close>, so the expiry job releases a unit for it again, and that unit is
  the one held by the pending registration of another buyer.
\<close>

theorem C5_reservation_not_released_once:
  "map quantity (registrations twoUnitsDb) = [2]
   \<and> map pay_status (registrations twoUnitsDb) = [P_pending]
   \<and> tierCounts twoUnitsDb 1 1 = Some (0, 2)
   \<and> tierCounts (expirePaymentsJob (sampleEnv\<lparr>now := 90000000\<rparr>) twoUnitsDb) 1 1 = Some (0, 0)
   \<and> map status (registrations twoUnitsPaidDb) = [S_confirmed]
   \<and> tierCounts twoUnitsPaidDb 1 1 = Some (1, 1)
   \<and> tierCounts (expirePaymentsJob (sampleEnv\<lparr>now := 90000000\<rparr>) twoUnitsPaidDb) 1 1 = Some (1, 1)
   \<and> map status (registrations (fst (handlePaymentNotification sampleEnv twoUnitsDb denial)))
        = [S_cancelled]
   \<and> tierCounts (fst (handlePaymentNotification sampleEnv twoUnitsDb denial)) 1 1 = Some (0, 1)
   \<and> map quantity (registrations twoBuyersDb) = [1, 1]
   \<and> map status (registrations twoBuyersDb) = [S_pending_payment, S_pending_payment]
   \<and> tierCounts twoBuyersDb 1 1 = Some (0, 2)
   \<and> tierCounts (fst (cancelRegistration sampleEnv twoBuyersDb 100 7)) 1 1 = Some (0, 1)
   \<and> map status (registrations (expirePaymentsJob (sampleEnv\<lparr>now := 90000000\<rparr>)
                                  (fst (cancelRegistration sampleEnv twoBuyersDb 100 7))))
        = [S_cancelled, S_pending_payment]
   \<and> tierCounts (expirePaymentsJob (sampleEnv\<lparr>now := 90000000\<rparr>)
                    (fst (cancelRegistration sampleEnv twoBuyersDb 100 7))) 1 1 = Some (0, 0)"
  by code_simp

end
